theory Spec2Isabelle
  imports Main "HOL-Library.Word" "HOL-Library.Signed_Division" "HOL-Library.Sublist"
begin

section \<open>Errors and panics\<close>

text \<open>
  A Go \<^verbatim>\<open>error\<close> value. \<^verbatim>\<open>io.EOF\<close> and \<^verbatim>\<open>io.ErrClosedPipe\<close> are the two sentinels the
  client compares against; \<open>ErrExternal\<close> is any other error produced by a library.
  An error built by \<^verbatim>\<open>fmt.Errorf\<close> keeps its format string and its arguments:
  \<open>Errorf\<close> has no error operand, \<open>ErrorfV\<close> formats its error operand with \<^verbatim>\<open>%v\<close>
  (the operand cannot be unwrapped), \<open>ErrorfW\<close> wraps it with \<^verbatim>\<open>%w\<close>.
\<close>

datatype fmt_arg = ArgString string | ArgInt int | ArgName "string list" | ArgConv nat

datatype error =
    EOF
  | ErrClosedPipe
  | ErrExternal string
  | Errorf string "fmt_arg list"
  | ErrorfV string "fmt_arg list" error
  | ErrorfW string "fmt_arg list" error

text \<open>\<^verbatim>\<open>errors.Is\<close>: the error itself or any error reached by unwrapping it.\<close>

fun errors_Is :: "error \<Rightarrow> error \<Rightarrow> bool" where
  "errors_Is (ErrorfW f as e) target = (ErrorfW f as e = target \<or> errors_Is e target)"
| "errors_Is e target = (e = target)"

text \<open>
  A run-time panic: the index expression \<^verbatim>\<open>xs[i]\<close> out of range (index and length), a
  method called through a nil pointer, and \<^verbatim>\<open>panic(rc)\<close> with a boolean operand.
\<close>

datatype panic = IndexOutOfRange nat nat | NilPointerDereference | PanicBool bool

section \<open>Declarations of the repository outside the given sources\<close>

type_synonym Name = "string list"
type_synonym bytes = "8 word list"

text \<open>
  \<^verbatim>\<open>dns.ParseName\<close>, \<^verbatim>\<open>noise.DecodeKey\<close>, \<^verbatim>\<open>dnsNameCapacity\<close>, the constant
  \<^verbatim>\<open>numPadding\<close> and the constant \<^verbatim>\<open>turbotunnel.QueueSize\<close> are used by the client package
  and declared elsewhere in the repository. They are parameters of the model.
  Go's \<^verbatim>\<open>int\<close> is modelled by \<open>int\<close>: a name capacity is bounded by the 255 octets of a DNS
  name, so the subtraction in \<^verbatim>\<open>NewTunnelServer\<close> stays far from the range limits.
\<close>

record decls =
  dns_ParseName :: "string \<Rightarrow> error + Name"
  noise_DecodeKey :: "string \<Rightarrow> error + bytes"
  dnsNameCapacity :: "Name \<Rightarrow> int"
  numPadding :: int
  QueueSize :: int

section \<open>Endpoint configuration\<close>

type_synonym ResolverType = string

definition ResolverTypeUDP :: ResolverType where "ResolverTypeUDP = ''udp''"
definition ResolverTypeDOT :: ResolverType where "ResolverTypeDOT = ''dot''"
definition ResolverTypeDOH :: ResolverType where "ResolverTypeDOH = ''doh''"

record Resolver =
  ResolverType :: ResolverType
  ResolverAddr :: string

definition NewResolver :: "ResolverType \<Rightarrow> string \<Rightarrow> error + Resolver" where
  "NewResolver resolverType resolverAddr =
     (if resolverType = ResolverTypeUDP
      then Inr \<lparr>ResolverType = resolverType, ResolverAddr = resolverAddr\<rparr>
      else Inl (Errorf ''unsupported resolver type: %s'' [ArgString resolverType]))"

record TunnelServer =
  Addr :: Name
  PubKey :: string
  MTU :: int
  decodedNoisePubKey :: bytes


section \<open>The external capabilities\<close>

type_synonym handle = nat

text \<open>
  Modelled from the spec: \<^verbatim>\<open>NewDNSPacketConn\<close> is declared outside the given sources; it
  wraps the bound socket and the target address into a DNS transport handle scoped to a
  domain. The handle records the three operands, each as the tunnel held it (\<open>None\<close> is
  \<^verbatim>\<open>nil\<close>).
\<close>

record DNSPacketConn =
  pconn_transport :: "handle option"
  pconn_remote :: "string option"
  pconn_domain :: Name

definition NewDNSPacketConn :: "handle option \<Rightarrow> string option \<Rightarrow> Name \<Rightarrow> DNSPacketConn" where
  "NewDNSPacketConn transport remote name =
     \<lparr>pconn_transport = transport, pconn_remote = remote, pconn_domain = name\<rparr>"

text \<open>
  A \<^verbatim>\<open>kcp.UDPSession\<close>: its conversation identifier (\<^verbatim>\<open>GetConv\<close>) and the configuration the
  setters have put on it, each field holding the operand of the last call
  (\<^verbatim>\<open>SetStreamMode\<close>, \<^verbatim>\<open>SetNoDelay\<close>, \<^verbatim>\<open>SetWindowSize\<close>, \<^verbatim>\<open>SetMtu\<close>).
\<close>

record UDPSession =
  conv :: nat
  stream_mode :: bool
  nodelay :: int
  interval :: int
  resend :: int
  nc :: int
  sndwnd :: int
  rcvwnd :: int
  session_mtu :: int

definition SetStreamMode :: "UDPSession \<Rightarrow> bool \<Rightarrow> UDPSession" where
  "SetStreamMode s enable = s\<lparr>stream_mode := enable\<rparr>"

definition SetNoDelay :: "UDPSession \<Rightarrow> int \<Rightarrow> int \<Rightarrow> int \<Rightarrow> int \<Rightarrow> UDPSession" where
  "SetNoDelay s a b c d = s\<lparr>nodelay := a, interval := b, resend := c, nc := d\<rparr>"

definition SetWindowSize :: "UDPSession \<Rightarrow> int \<Rightarrow> int \<Rightarrow> UDPSession" where
  "SetWindowSize s a b = s\<lparr>sndwnd := a, rcvwnd := b\<rparr>"

record smux_Config =
  Version :: int
  KeepAliveTimeout :: int
  MaxStreamBuffer :: int

datatype layer = ResolverConn | DnsPacketConn | KcpConn | NoiseChannel | SmuxSession

text \<open>
  The network and the three libraries, as substitutable implementations: what each call
  answers. \<open>kcp_SetMtu\<close> says whether the transport accepts a transport unit size;
  \<open>close_result\<close> is what \<^verbatim>\<open>Close\<close> on the handle of a layer returns.
\<close>

record world =
  net_ResolveTCPAddr :: "string \<Rightarrow> error + string"
  net_ListenTCP :: "string \<Rightarrow> error + handle"
  net_ResolveUDPAddr :: "string \<Rightarrow> error + string"
  net_ListenUDP :: "error + handle"
  kcp_NewConn2 :: "string option \<Rightarrow> DNSPacketConn option \<Rightarrow> error + UDPSession"
  kcp_SetMtu :: "int \<Rightarrow> bool"
  noise_NewClient :: "UDPSession option \<Rightarrow> bytes \<Rightarrow> error + handle"
  smux_DefaultConfig :: smux_Config
  smux_Client :: "handle option \<Rightarrow> smux_Config \<Rightarrow> error + handle"
  smux_OpenStream :: "handle \<Rightarrow> error + nat"
  close_result :: "layer \<Rightarrow> error option"

definition SetMtu :: "world \<Rightarrow> UDPSession \<Rightarrow> int \<Rightarrow> bool \<times> UDPSession" where
  "SetMtu w s m = (if kcp_SetMtu w m then (True, s\<lparr>session_mtu := m\<rparr>) else (False, s))"

section \<open>Observable events\<close>

datatype stage = StageResolver | StageDNSPacketConn | StageKCPConn | StageNoiseChannel | StageSmuxSession

text \<open>The calls of \<^verbatim>\<open>log.Printf\<close>, one constructor for each format string of the package.\<close>

datatype logmsg =
    LogBeginSession nat
  | LogNoiseEstablished nat
  | LogSmuxEstablished nat
  | LogEffectiveMTU int
  | LogEndSession nat
  | LogBeginStream nat nat
  | LogEndStream nat nat
  | LogCopyStreamLocal nat nat error
  | LogCopyLocalStream nat nat error
  | LogHandle error

text \<open>
  How a call ends: it returns a value, it panics, or it never returns (it is blocked in
  a call that has not completed).
\<close>

datatype 'a exit = Return 'a | Panic panic | Blocked

datatype event =
    Log logmsg
  | Enter stage
  | Leave stage "error option exit"
  | CallClose
  | CloseLayer layer "error option"
  | ListenerClose handle
  | Accept "error + handle"
  | Go handle
  | OpenStream "error + nat"
  | CopyDone "error option"
  | CloseRead handle
  | CloseWrite handle
  | StreamClose nat
  | ConnClose handle

fun is_Log :: "event \<Rightarrow> bool" where
  "is_Log (Log m) = True"
| "is_Log e = False"

section \<open>The tunnel\<close>

record Tunnel =
  Resolver :: Resolver
  TunnelServer :: TunnelServer
  addr :: "string option"
  resolverConn :: "handle option"
  dnsPacketConn :: "DNSPacketConn option"
  kcpConn :: "UDPSession option"
  noiseChannel :: "handle option"
  smuxSession :: "handle option"

definition NewTunnel :: "Resolver \<Rightarrow> TunnelServer \<Rightarrow> error + Tunnel" where
  "NewTunnel resolver tunnelServer =
     Inr \<lparr>Resolver = resolver, TunnelServer = tunnelServer, addr = None,
          resolverConn = None, dnsPacketConn = None, kcpConn = None,
          noiseChannel = None, smuxSession = None\<rparr>"

type_synonym 'a call = "'a exit \<times> Tunnel \<times> event list"

definition InitiateResolverConnection :: "world \<Rightarrow> Tunnel \<Rightarrow> error option call" where
  "InitiateResolverConnection w t =
     (if ResolverType (Resolver t) = ResolverTypeUDP then
        (case net_ResolveUDPAddr w (ResolverAddr (Resolver t)) of
           Inl err \<Rightarrow> (Return (Some err), t, [])
         | Inr a \<Rightarrow>
             (case net_ListenUDP w of
                Inl err \<Rightarrow> (Return (Some err), t, [])
              | Inr c \<Rightarrow> (Return None, t\<lparr>resolverConn := Some c, addr := Some a\<rparr>, [])))
      else (Return (Some (Errorf ''unsupported resolver type: %s''
                            [ArgString (ResolverType (Resolver t))])), t, []))"

definition InitiateDNSPacketConn :: "Tunnel \<Rightarrow> Name \<Rightarrow> error option call" where
  "InitiateDNSPacketConn t name =
     (if ResolverType (Resolver t) = ResolverTypeUDP then
        (Return None,
         t\<lparr>dnsPacketConn := Some (NewDNSPacketConn (resolverConn t) (addr t) name)\<rparr>, [])
      else (Return (Some (Errorf ''unsupported resolver type: %s''
                            [ArgString (ResolverType (Resolver t))])), t, []))"

definition InitiateKCPConn :: "decls \<Rightarrow> world \<Rightarrow> Tunnel \<Rightarrow> int \<Rightarrow> error option call" where
  "InitiateKCPConn D w t m =
     (case kcp_NewConn2 w (addr t) (dnsPacketConn t) of
        Inl err \<Rightarrow> (Return (Some (ErrorfV ''opening KCP conn: %v'' [] err)), t, [])
      | Inr c0 \<Rightarrow>
          (let c1 = SetStreamMode c0 True;
               c2 = SetNoDelay c1 0 0 0 1;
               c3 = SetWindowSize c2 (QueueSize D sdiv 2) (QueueSize D sdiv 2);
               (rc, c4) = SetMtu w c3 m
           in if \<not> rc then (Panic (PanicBool rc), t, [Log (LogBeginSession (conv c0))])
              else (Return None, t\<lparr>kcpConn := Some c4\<rparr>, [Log (LogBeginSession (conv c0))])))"

definition InitiateNoiseChannel :: "world \<Rightarrow> Tunnel \<Rightarrow> error option call" where
  "InitiateNoiseChannel w t =
     (case noise_NewClient w (kcpConn t) (decodedNoisePubKey (TunnelServer t)) of
        Inl err \<Rightarrow> (Return (Some (ErrorfV ''initiating Noise channel: %v'' [] err)), t, [])
      | Inr rw \<Rightarrow>
          (case kcpConn t of
             None \<Rightarrow> (Panic NilPointerDereference, t, [])
           | Some k \<Rightarrow>
               (Return None, t\<lparr>noiseChannel := Some rw\<rparr>, [Log (LogNoiseEstablished (conv k))])))"

definition idleTimeout :: int where
  "idleTimeout = 2 * (60 * 1000000000)"

definition InitiateSmuxSession :: "world \<Rightarrow> Tunnel \<Rightarrow> error option call" where
  "InitiateSmuxSession w t =
     (let smuxConfig = (smux_DefaultConfig w)
            \<lparr>Version := 2, KeepAliveTimeout := idleTimeout, MaxStreamBuffer := 1 * 1024 * 1024\<rparr>
      in case smux_Client w (noiseChannel t) smuxConfig of
           Inl err \<Rightarrow> (Return (Some (ErrorfV ''opening smux session: %v'' [] err)), t, [])
         | Inr sess \<Rightarrow>
             (case kcpConn t of
                None \<Rightarrow> (Panic NilPointerDereference, t\<lparr>smuxSession := Some sess\<rparr>, [])
              | Some k \<Rightarrow>
                  (Return None, t\<lparr>smuxSession := Some sess\<rparr>,
                   [Log (LogSmuxEstablished (conv k))])))"

text \<open>
  \<^verbatim>\<open>Close\<close> leaves the tunnel as it is: no field is assigned. It returns \<^verbatim>\<open>nil\<close>; the result
  of closing a layer is dropped (it is kept in the event for the record only).
\<close>

definition Close :: "world \<Rightarrow> Tunnel \<Rightarrow> error option \<times> event list" where
  "Close w t =
     (None,
      (case resolverConn t of None \<Rightarrow> []
       | Some c \<Rightarrow> [CloseLayer ResolverConn (close_result w ResolverConn)])
      @ (case dnsPacketConn t of None \<Rightarrow> []
         | Some c \<Rightarrow> [CloseLayer DnsPacketConn (close_result w DnsPacketConn)])
      @ (case kcpConn t of None \<Rightarrow> []
         | Some k \<Rightarrow> [Log (LogEndSession (conv k)), CloseLayer KcpConn (close_result w KcpConn)])
      @ (case noiseChannel t of None \<Rightarrow> []
         | Some c \<Rightarrow> [CloseLayer NoiseChannel (close_result w NoiseChannel)])
      @ (case smuxSession t of None \<Rightarrow> []
         | Some c \<Rightarrow> [CloseLayer SmuxSession (close_result w SmuxSession)]))"

section \<open>The stream bridge\<close>

text \<open>
  \<^verbatim>\<open>Handle\<close> runs three goroutines: the caller and the two copy directions. An event of
  its trace is tagged with the goroutine that performs it.
\<close>

datatype goroutine = Caller | LocalToStream | StreamToLocal

text \<open>
  The body of a copy goroutine, given what \<^verbatim>\<open>io.Copy\<close> does: \<open>None\<close> when the copy never
  completes (the goroutine stays blocked in it), \<open>Some r\<close> when it returns \<open>r\<close>.
\<close>

definition copy_local_to_stream :: "nat \<Rightarrow> nat \<Rightarrow> handle \<Rightarrow> error option option \<Rightarrow> event list" where
  "copy_local_to_stream c sid lconn r =
     (case r of
        None \<Rightarrow> []
      | Some err0 \<Rightarrow>
          (let err = (if err0 = Some EOF then None else err0) in
           CopyDone err0
           # (case err of
                None \<Rightarrow> []
              | Some e \<Rightarrow> if \<not> errors_Is e ErrClosedPipe
                          then [Log (LogCopyStreamLocal c sid e)] else [])
           @ [CloseRead lconn, StreamClose sid]))"

definition copy_stream_to_local :: "nat \<Rightarrow> nat \<Rightarrow> handle \<Rightarrow> error option option \<Rightarrow> event list" where
  "copy_stream_to_local c sid lconn r =
     (case r of
        None \<Rightarrow> []
      | Some err0 \<Rightarrow>
          (let err = (if err0 = Some EOF then None else err0) in
           CopyDone err0
           # (case err of
                None \<Rightarrow> []
              | Some e \<Rightarrow> if \<not> errors_Is e ErrClosedPipe
                          then [Log (LogCopyLocalStream c sid e)] else [])
           @ [CloseWrite lconn]))"

text \<open>
  The scheduler: a list of choices merges the events of two goroutines into one
  sequence (\<open>True\<close> runs the first). Every merge that keeps the order of each goroutine
  is the result of some list of choices.
\<close>

fun interleave :: "bool list \<Rightarrow> 'a list \<Rightarrow> 'a list \<Rightarrow> 'a list" where
  "interleave s [] ys = ys"
| "interleave s xs [] = xs"
| "interleave [] xs ys = xs @ ys"
| "interleave (True # s) (x # xs) ys = x # interleave s xs ys"
| "interleave (False # s) xs (y # ys) = y # interleave s xs ys"

text \<open>
  \<^verbatim>\<open>Handle\<close>. The variable \<^verbatim>\<open>err\<close> it returns is the one assigned by \<^verbatim>\<open>OpenStream\<close>: each
  goroutine declares an \<^verbatim>\<open>err\<close> of its own for the result of \<^verbatim>\<open>io.Copy\<close>. The deferred
  function runs when \<^verbatim>\<open>wg.Wait\<close> has returned, that is when both goroutines are done; with
  a nil \<^verbatim>\<open>kcpConn\<close> it panics again in \<^verbatim>\<open>GetConv\<close> before it closes the stream.
\<close>

definition Handle ::
  "bool list \<Rightarrow> world \<Rightarrow> Tunnel \<Rightarrow> handle \<Rightarrow> error option option \<Rightarrow> error option option
     \<Rightarrow> error option exit \<times> (goroutine \<times> event) list" where
  "Handle sched w t lconn r1 r2 =
     (case smuxSession t of
        None \<Rightarrow> (Panic NilPointerDereference, [])
      | Some sess \<Rightarrow>
          (case smux_OpenStream w sess of
             Inl err \<Rightarrow>
               (case kcpConn t of
                  None \<Rightarrow> (Panic NilPointerDereference, [(Caller, OpenStream (Inl err))])
                | Some k \<Rightarrow>
                    (Return (Some (ErrorfW ''session %08x opening stream: %w'' [ArgConv (conv k)] err)),
                     [(Caller, OpenStream (Inl err))]))
           | Inr sid \<Rightarrow>
               (case kcpConn t of
                  None \<Rightarrow> (Panic NilPointerDereference, [(Caller, OpenStream (Inr sid))])
                | Some k \<Rightarrow>
                    (let err = None;
                         running =
                           (Caller, OpenStream (Inr sid))
                           # (Caller, Log (LogBeginStream (conv k) sid))
                           # interleave sched
                               (map (Pair LocalToStream) (copy_local_to_stream (conv k) sid lconn r1))
                               (map (Pair StreamToLocal) (copy_stream_to_local (conv k) sid lconn r2))
                     in if r1 = None \<or> r2 = None then (Blocked, running)
                        else (Return err,
                              running @ [(Caller, Log (LogEndStream (conv k) sid)),
                                         (Caller, StreamClose sid)])))))"

text \<open>The goroutine \<^verbatim>\<open>Start\<close> runs for an accepted connection.\<close>

definition Start_go ::
  "bool list \<Rightarrow> world \<Rightarrow> Tunnel \<Rightarrow> handle \<Rightarrow> error option option \<Rightarrow> error option option
     \<Rightarrow> unit exit \<times> (goroutine \<times> event) list" where
  "Start_go sched w t lc r1 r2 =
     (case Handle sched w t lc r1 r2 of
        (Return None, tr) \<Rightarrow> (Return (), tr @ [(Caller, ConnClose lc)])
      | (Return (Some err), tr) \<Rightarrow>
          (Return (), tr @ [(Caller, Log (LogHandle err)), (Caller, ConnClose lc)])
      | (Panic p, tr) \<Rightarrow> (Panic p, tr @ [(Caller, ConnClose lc)])
      | (Blocked, tr) \<Rightarrow> (Blocked, tr))"

section \<open>The listener\<close>

record Outbound =
  Resolvers :: "Resolver list"
  TunnelServers :: "TunnelServer list"
  tunnels :: "Tunnel list"

definition NewOutbound :: "Resolver list \<Rightarrow> TunnelServer list \<Rightarrow> Outbound" where
  "NewOutbound resolvers tunnelServers =
     \<lparr>Resolvers = resolvers, TunnelServers = tunnelServers, tunnels = []\<rparr>"

text \<open>
  The accept loop, on the answers of the successive calls of \<^verbatim>\<open>Accept\<close>. The loop has no
  exit: when the answers are used up it is blocked in the next \<^verbatim>\<open>Accept\<close>. Each step says
  whether the loop goes on (\<open>None\<close>) or leaves \<^verbatim>\<open>Start\<close> with an error.
\<close>

definition Start_accept :: "error + handle \<Rightarrow> error option \<times> event list" where
  "Start_accept a =
     (case a of
        Inl err \<Rightarrow> (None, [Accept a])
      | Inr lc \<Rightarrow> (None, [Accept a, Go lc]))"

fun Start_loop :: "(error + handle) list \<Rightarrow> error exit \<times> event list" where
  "Start_loop [] = (Blocked, [])"
| "Start_loop (a # as) =
     (case Start_accept a of
        (Some err, es) \<Rightarrow> (Return err, es)
      | (None, es) \<Rightarrow> (case Start_loop as of (x, es') \<Rightarrow> (x, es @ es')))"

text \<open>
  One stage of the bring-up: \<^verbatim>\<open>if err := stage(); err != nil { return fmt.Errorf(msg, err) }\<close>,
  followed by the rest of \<^verbatim>\<open>Start\<close>. The events \<open>Enter\<close> and \<open>Leave\<close> mark the call.
\<close>

definition try_stage ::
  "stage \<Rightarrow> string \<Rightarrow> error option call \<Rightarrow> (Tunnel \<Rightarrow> error call) \<Rightarrow> error call" where
  "try_stage s msg r rest =
     (case r of (x, t, es) \<Rightarrow>
        (case x of
           Return None \<Rightarrow>
             (case rest t of (y, t', es') \<Rightarrow> (y, t', Enter s # es @ Leave s x # es'))
         | Return (Some err) \<Rightarrow> (Return (ErrorfW msg [] err), t, Enter s # es @ [Leave s x])
         | Panic p \<Rightarrow> (Panic p, t, Enter s # es @ [Leave s x])
         | Blocked \<Rightarrow> (Blocked, t, Enter s # es @ [Leave s x])))"

definition emit :: "event list \<Rightarrow> error call \<Rightarrow> error call" where
  "emit es r = (case r of (x, t, es') \<Rightarrow> (x, t, es @ es'))"

definition Start_bring_up ::
  "decls \<Rightarrow> world \<Rightarrow> Tunnel \<Rightarrow> TunnelServer \<Rightarrow> (error + handle) list \<Rightarrow> error call" where
  "Start_bring_up D w tunnel tunnelServer accepts =
     try_stage StageResolver ''failed to initiate connection to resolver: %w''
       (InitiateResolverConnection w tunnel) (\<lambda>t1.
     try_stage StageDNSPacketConn ''failed to initiate DNS packet connection: %w''
       (InitiateDNSPacketConn t1 (Addr tunnelServer)) (\<lambda>t2.
     emit [Log (LogEffectiveMTU (MTU tunnelServer))]
     (try_stage StageKCPConn ''failed to initiate KCP connection: %w''
       (InitiateKCPConn D w t2 (MTU tunnelServer)) (\<lambda>t3.
     try_stage StageNoiseChannel ''failed to initiate Noise channel: %w''
       (InitiateNoiseChannel w t3) (\<lambda>t4.
     try_stage StageSmuxSession ''failed to initiate smux session: %w''
       (InitiateSmuxSession w t4) (\<lambda>t5.
     (case Start_loop accepts of (x, es) \<Rightarrow> (x, t5, es))))))))"

text \<open>
  \<^verbatim>\<open>Start\<close> after the listener is open. The deferred \<^verbatim>\<open>tunnel.Close()\<close> runs when the body
  returns or panics, not while it is blocked. \<^verbatim>\<open>o.tunnels\<close> holds the pointer to the
  tunnel: the model gives it the tunnel as the bring-up left it.
\<close>

definition Start_listening ::
  "decls \<Rightarrow> world \<Rightarrow> Outbound \<Rightarrow> (error + handle) list \<Rightarrow> error exit \<times> Outbound \<times> event list" where
  "Start_listening D w o' accepts =
     (case Resolvers o' of
        [] \<Rightarrow> (Panic (IndexOutOfRange 0 0), o', [])
      | resolver # _ \<Rightarrow>
          (case TunnelServers o' of
             [] \<Rightarrow> (Panic (IndexOutOfRange 0 0), o', [])
           | tunnelServer # _ \<Rightarrow>
               (case NewTunnel resolver tunnelServer of
                  Inl err \<Rightarrow> (Return (ErrorfW ''failed to create tunnel: %w'' [] err), o', [])
                | Inr tunnel \<Rightarrow>
                    (case Start_bring_up D w tunnel tunnelServer accepts of
                       (x, t, es) \<Rightarrow>
                         (x, o'\<lparr>tunnels := [t]\<rparr>,
                          es @ (case x of Blocked \<Rightarrow> []
                                | _ \<Rightarrow> CallClose # snd (Close w t)))))))"

definition Start ::
  "decls \<Rightarrow> world \<Rightarrow> Outbound \<Rightarrow> string \<Rightarrow> (error + handle) list
     \<Rightarrow> error exit \<times> Outbound \<times> event list" where
  "Start D w o' bind accepts =
     (case net_ResolveTCPAddr w bind of
        Inl err \<Rightarrow> (Return (ErrorfW ''invalid local address: %w'' [] err), o', [])
      | Inr localAddr \<Rightarrow>
          (case net_ListenTCP w localAddr of
             Inl err \<Rightarrow> (Return (ErrorfV ''opening local listener: %v'' [] err), o', [])
           | Inr ln \<Rightarrow>
               (case Start_listening D w o' accepts of
                  (x, o'', es) \<Rightarrow>
                    (x, o'', es @ (case x of Blocked \<Rightarrow> [] | _ \<Rightarrow> [ListenerClose ln])))))"

text \<open>
  A caller that calls \<^verbatim>\<open>Close\<close> several times, each time in the world of that moment. The
  tunnel is the same at every call, since \<^verbatim>\<open>Close\<close> assigns no field.
\<close>

fun Close_repeatedly :: "world list \<Rightarrow> Tunnel \<Rightarrow> error option list \<times> event list" where
  "Close_repeatedly [] t = ([], [])"
| "Close_repeatedly (w # ws) t =
     (case Close w t of (r, es) \<Rightarrow>
        (case Close_repeatedly ws t of (rs, es') \<Rightarrow> (r # rs, es @ es')))"

section \<open>Reading a trace\<close>

fun closed_layers :: "event list \<Rightarrow> layer list" where
  "closed_layers [] = []"
| "closed_layers (CloseLayer l r # es) = l # closed_layers es"
| "closed_layers (e # es) = closed_layers es"

fun present :: "Tunnel \<Rightarrow> layer \<Rightarrow> bool" where
  "present t ResolverConn = (resolverConn t \<noteq> None)"
| "present t DnsPacketConn = (dnsPacketConn t \<noteq> None)"
| "present t KcpConn = (kcpConn t \<noteq> None)"
| "present t NoiseChannel = (noiseChannel t \<noteq> None)"
| "present t SmuxSession = (smuxSession t \<noteq> None)"

text \<open>The events of one goroutine, in their order.\<close>

definition events_of :: "goroutine \<Rightarrow> (goroutine \<times> event) list \<Rightarrow> event list" where
  "events_of g tr = map snd (filter (\<lambda>p. fst p = g) tr)"

text \<open>A trace without its log lines.\<close>

definition nonlog :: "event list \<Rightarrow> event list" where
  "nonlog es = filter (\<lambda>e. \<not> is_Log e) es"

text \<open>
  \<open>precedes a b es\<close>: no \<open>b\<close> occurs in \<open>es\<close> before the first \<open>a\<close> (so \<open>b\<close> occurs only
  after an \<open>a\<close>, if at all).
\<close>

fun precedes :: "'a \<Rightarrow> 'a \<Rightarrow> 'a list \<Rightarrow> bool" where
  "precedes a b [] = True"
| "precedes a b (e # es) = (if e = a then True else e \<noteq> b \<and> precedes a b es)"

text \<open>The stages entered, the answers of \<^verbatim>\<open>Accept\<close> and the goroutines started, in their order.\<close>

fun entered :: "event list \<Rightarrow> stage list" where
  "entered [] = []"
| "entered (Enter s # es) = s # entered es"
| "entered (e # es) = entered es"

fun accept_answers :: "event list \<Rightarrow> (error + handle) list" where
  "accept_answers [] = []"
| "accept_answers (Accept a # es) = a # accept_answers es"
| "accept_answers (e # es) = accept_answers es"

fun spawned :: "event list \<Rightarrow> handle list" where
  "spawned [] = []"
| "spawned (Go c # es) = c # spawned es"
| "spawned (e # es) = spawned es"

fun stage_index :: "stage \<Rightarrow> nat" where
  "stage_index StageResolver = 0"
| "stage_index StageDNSPacketConn = 1"
| "stage_index StageKCPConn = 2"
| "stage_index StageNoiseChannel = 3"
| "stage_index StageSmuxSession = 4"

text \<open>The format string with which \<^verbatim>\<open>Start\<close> wraps the error of each stage.\<close>

fun stage_message :: "stage \<Rightarrow> string" where
  "stage_message StageResolver = ''failed to initiate connection to resolver: %w''"
| "stage_message StageDNSPacketConn = ''failed to initiate DNS packet connection: %w''"
| "stage_message StageKCPConn = ''failed to initiate KCP connection: %w''"
| "stage_message StageNoiseChannel = ''failed to initiate Noise channel: %w''"
| "stage_message StageSmuxSession = ''failed to initiate smux session: %w''"

section \<open>Sample values for closed instances\<close>

text \<open>
  A sample set of outside declarations: names are split at dots, every key string of 64
  characters decodes, the capacity of every name is 150 and three bytes of padding are
  reserved.
\<close>

fun split_dots :: "string \<Rightarrow> string \<Rightarrow> string list" where
  "split_dots acc [] = [rev acc]"
| "split_dots acc (c # cs) =
     (if c = CHR ''.'' then rev acc # split_dots [] cs else split_dots (c # acc) cs)"

definition sample_decls :: decls where
  "sample_decls =
     \<lparr>dns_ParseName = (\<lambda>s. if s = [] then Inl (ErrExternal ''empty name'') else Inr (split_dots [] s)),
      noise_DecodeKey = (\<lambda>s. if length s = 64 then Inr (replicate 32 0)
                              else Inl (ErrExternal ''length is not 64'')),
      dnsNameCapacity = (\<lambda>n. 150),
      numPadding = 3,
      QueueSize = 128\<rparr>"

text \<open>
  A sample world: every call succeeds, the transport accepts a unit size from 50 to 1500,
  and closing the KCP session reports a closed pipe.
\<close>

definition sample_fresh_session :: UDPSession where
  "sample_fresh_session =
     \<lparr>conv = 7, stream_mode = False, nodelay = 0, interval = 100, resend = 0, nc = 0,
      sndwnd = 32, rcvwnd = 32, session_mtu = 1400\<rparr>"

definition sample_world :: world where
  "sample_world =
     \<lparr>net_ResolveTCPAddr = (\<lambda>s. if s = [] then Inl (ErrExternal ''missing address'') else Inr s),
      net_ListenTCP = (\<lambda>a. Inr 1),
      net_ResolveUDPAddr = (\<lambda>s. if s = [] then Inl (ErrExternal ''missing address'') else Inr s),
      net_ListenUDP = Inr 2,
      kcp_NewConn2 = (\<lambda>a p. Inr sample_fresh_session),
      kcp_SetMtu = (\<lambda>m. 50 \<le> m \<and> m \<le> 1500),
      noise_NewClient = (\<lambda>k key. Inr 3),
      smux_DefaultConfig = \<lparr>Version = 1, KeepAliveTimeout = 30000000000, MaxStreamBuffer = 65536\<rparr>,
      smux_Client = (\<lambda>c cfg. Inr 4),
      smux_OpenStream = (\<lambda>s. Inr 3),
      close_result = (\<lambda>l. if l = KcpConn then Some ErrClosedPipe else None)\<rparr>"

definition sample_resolver :: Resolver where
  "sample_resolver = \<lparr>ResolverType = ''udp'', ResolverAddr = ''1.1.1.1:53''\<rparr>"

definition sample_server :: TunnelServer where
  "sample_server =
     \<lparr>Addr = [''t'', ''example'', ''com''], PubKey = replicate 64 CHR ''0'', MTU = 137,
      decodedNoisePubKey = replicate 32 0\<rparr>"

definition sample_session :: UDPSession where
  "sample_session =
     \<lparr>conv = 7, stream_mode = True, nodelay = 0, interval = 0, resend = 0, nc = 1,
      sndwnd = 64, rcvwnd = 64, session_mtu = 137\<rparr>"

text \<open>The sample tunnel with its first two layers open, and with all of them.\<close>

definition sample_tunnel2 :: Tunnel where
  "sample_tunnel2 =
     \<lparr>Resolver = sample_resolver, TunnelServer = sample_server, addr = Some ''1.1.1.1:53'',
      resolverConn = Some 2,
      dnsPacketConn = Some (NewDNSPacketConn (Some 2) (Some ''1.1.1.1:53'') [''t'', ''example'', ''com'']),
      kcpConn = None, noiseChannel = None, smuxSession = None\<rparr>"

definition sample_tunnel :: Tunnel where
  "sample_tunnel = sample_tunnel2\<lparr>kcpConn := Some sample_session, noiseChannel := Some 3,
                                  smuxSession := Some 4\<rparr>"

text \<open>
  The sample listener, the same with a server whose unit size the sample transport
  rejects, and the sample world with a Noise handshake that fails.
\<close>

definition sample_outbound :: Outbound where
  "sample_outbound = NewOutbound [sample_resolver] [sample_server]"

definition sample_outbound_2000 :: Outbound where
  "sample_outbound_2000 = NewOutbound [sample_resolver] [sample_server\<lparr>MTU := 2000\<rparr>]"

definition sample_world_no_handshake :: world where
  "sample_world_no_handshake =
     sample_world\<lparr>noise_NewClient := (\<lambda>k key. Inl (ErrExternal ''handshake failed''))\<rparr>"

section \<open>Endpoint configuration: the derived transport unit\<close>




section \<open>The listener: selecting the endpoints\<close>

text \<open>
  C1 (the code at the failing inputs): \<^verbatim>\<open>main\<close> run without the \<^verbatim>\<open>-udp\<close> flag passes an
  empty list of resolvers. \<^verbatim>\<open>Start\<close> opens the listener and then evaluates
  \<^verbatim>\<open>o.Resolvers[0]\<close>: it panics with an index out of range, and returns no error. The
  same holds for an empty list of tunnel servers.
\<close>

theorem Start_empty_list_panics:
  "NewOutbound [] [sample_server]
     = \<lparr>Resolvers = [], TunnelServers = [sample_server], tunnels = []\<rparr>
   \<and> Start sample_decls sample_world (NewOutbound [] [sample_server]) ''127.0.0.1:7000'' []
       = (Panic (IndexOutOfRange 0 0), NewOutbound [] [sample_server], [ListenerClose 1])
   \<and> Start sample_decls sample_world (NewOutbound [sample_resolver] []) ''127.0.0.1:7000'' []
       = (Panic (IndexOutOfRange 0 0), NewOutbound [sample_resolver] [], [ListenerClose 1])"
  by (simp add: Start_def Start_listening_def NewOutbound_def sample_world_def)

section \<open>The ordered transport\<close>

text \<open>
  C2, as stated, at a concrete input: the sample transport rejects a unit size of 2000,
  and \<^verbatim>\<open>InitiateKCPConn\<close> panics instead of returning an error.
\<close>

theorem InitiateKCPConn_rejected_mtu_panics:
  "\<not> kcp_SetMtu sample_world 2000
   \<and> InitiateKCPConn sample_decls sample_world sample_tunnel2 2000
       = (Panic (PanicBool False), sample_tunnel2, [Log (LogBeginSession 7)])"
  by (simp add: InitiateKCPConn_def SetMtu_def sample_world_def sample_fresh_session_def)

text \<open>
  C2 (amended): for every unit size that the transport rejects, once the KCP connection
  is open, \<^verbatim>\<open>InitiateKCPConn\<close> panics with the result of \<^verbatim>\<open>SetMtu\<close> (\<^verbatim>\<open>panic(false)\<close>): it
  returns no error to its caller, and it leaves the tunnel as it was, \<^verbatim>\<open>kcpConn\<close> unset.
\<close>

theorem InitiateKCPConn_rejected:
  assumes "kcp_NewConn2 w (addr t) (dnsPacketConn t) = Inr c"
    and "\<not> kcp_SetMtu w m"
  shows "InitiateKCPConn D w t m = (Panic (PanicBool False), t, [Log (LogBeginSession (conv c))])"
  using assms by (simp add: InitiateKCPConn_def SetMtu_def)

theorem InitiateKCPConn_rejected_witness:
  "kcp_NewConn2 sample_world (addr sample_tunnel2) (dnsPacketConn sample_tunnel2)
     = Inr sample_fresh_session
   \<and> \<not> kcp_SetMtu sample_world 1501
   \<and> InitiateKCPConn sample_decls sample_world sample_tunnel2 1501
       = (Panic (PanicBool False), sample_tunnel2, [Log (LogBeginSession 7)])"
proof -
  have a: "kcp_NewConn2 sample_world (addr sample_tunnel2) (dnsPacketConn sample_tunnel2)
             = Inr sample_fresh_session"
    by (simp add: sample_world_def)
  have b: "\<not> kcp_SetMtu sample_world 1501"
    by (simp add: sample_world_def)
  show ?thesis
    using InitiateKCPConn_rejected [OF a b, of sample_decls] a b
    by (simp add: sample_fresh_session_def)
qed



section \<open>Teardown\<close>

lemma closed_layers_append: "closed_layers (xs @ ys) = closed_layers xs @ closed_layers ys"
  by (induction xs rule: closed_layers.induct) simp_all

lemma Close_returns_nil: "fst (Close w t) = None"
  by (simp add: Close_def)

lemma closed_layers_Close:
  "closed_layers (snd (Close w t))
     = filter (present t) [ResolverConn, DnsPacketConn, KcpConn, NoiseChannel, SmuxSession]"
  by (simp add: Close_def closed_layers_append split: option.splits)

text \<open>
  C4, as stated, at a concrete input: on the sample tunnel with its five handles set,
  \<^verbatim>\<open>Close\<close> closes the resolver connection first and the smux session last, which is not
  the order smux, Noise, KCP, DNS, resolver; closing the KCP session fails there, and
  \<^verbatim>\<open>Close\<close> reports nothing.
\<close>

theorem Close_forward_order_counterexample:
  "closed_layers (snd (Close sample_world sample_tunnel))
     = [ResolverConn, DnsPacketConn, KcpConn, NoiseChannel, SmuxSession]
   \<and> closed_layers (snd (Close sample_world sample_tunnel))
     \<noteq> [SmuxSession, NoiseChannel, KcpConn, DnsPacketConn, ResolverConn]
   \<and> CloseLayer KcpConn (Some ErrClosedPipe) \<in> set (snd (Close sample_world sample_tunnel))
   \<and> fst (Close sample_world sample_tunnel) = None"
  by (simp add: Close_def sample_tunnel_def sample_tunnel2_def sample_world_def)

text \<open>
  C4 (amended): \<^verbatim>\<open>Close\<close> attempts to close the resolver connection first, then the DNS
  packet connection, then the KCP session, then the Noise channel, then the smux session
  (the order of the bring-up), each one when its handle is set. It goes on past the
  failure of any of them: whatever the closes answer, every handle that is set is closed,
  the answers are dropped and \<^verbatim>\<open>Close\<close> returns \<^verbatim>\<open>nil\<close>.
\<close>

theorem Close_bring_up_order:
  "fst (Close w t) = None
   \<and> closed_layers (snd (Close w t))
       = filter (present t) [ResolverConn, DnsPacketConn, KcpConn, NoiseChannel, SmuxSession]
   \<and> filter (\<lambda>e. \<not> is_Log e) (snd (Close w t))
       = map (\<lambda>l. CloseLayer l (close_result w l))
           (filter (present t) [ResolverConn, DnsPacketConn, KcpConn, NoiseChannel, SmuxSession])"
  by (simp add: Close_def closed_layers_append split: option.splits)

text \<open>
  C8, as stated, at a concrete input: two calls of \<^verbatim>\<open>Close\<close> on the sample tunnel close each
  of its five handles twice.
\<close>

theorem Close_twice_counterexample:
  "closed_layers (snd (Close_repeatedly [sample_world, sample_world] sample_tunnel))
     = [ResolverConn, DnsPacketConn, KcpConn, NoiseChannel, SmuxSession,
        ResolverConn, DnsPacketConn, KcpConn, NoiseChannel, SmuxSession]
   \<and> count_list (closed_layers (snd (Close_repeatedly [sample_world, sample_world] sample_tunnel)))
        ResolverConn = 2"
  by (simp add: Close_def sample_tunnel_def sample_tunnel2_def sample_world_def)

text \<open>
  C8 (amended): \<^verbatim>\<open>Close\<close> is total. Called any number of times, in any state of the tunnel
  (any of the five handles unset) and whatever the closes answer, every call returns
  \<^verbatim>\<open>nil\<close>; every call closes the handles that are set, each once, and none that is unset.
  \<^verbatim>\<open>Close\<close> does not clear a handle, so each further call closes every set handle again.
\<close>

theorem Close_repeatedly_total:
  "fst (Close_repeatedly ws t) = replicate (length ws) None
   \<and> closed_layers (snd (Close_repeatedly ws t))
       = concat (replicate (length ws)
           (filter (present t) [ResolverConn, DnsPacketConn, KcpConn, NoiseChannel, SmuxSession]))"
proof -
  define L where
    "L = filter (present t) [ResolverConn, DnsPacketConn, KcpConn, NoiseChannel, SmuxSession]"
  have step: "\<And>w. \<exists>es. Close w t = (None, es) \<and> closed_layers es = L"
    unfolding L_def using Close_returns_nil closed_layers_Close
    by (metis prod.collapse)
  have "fst (Close_repeatedly ws t) = replicate (length ws) None
      \<and> closed_layers (snd (Close_repeatedly ws t)) = concat (replicate (length ws) L)"
  proof (induction ws)
    case Nil
    show ?case by simp
  next
    case (Cons w ws)
    obtain es where c: "Close w t = (None, es)" and l: "closed_layers es = L"
      using step by blast
    obtain rs es' where r: "Close_repeatedly ws t = (rs, es')"
      by (cases "Close_repeatedly ws t") blast
    from Cons r have "rs = replicate (length ws) None"
      and "closed_layers es' = concat (replicate (length ws) L)" by simp_all
    with c l r show ?case by (simp add: closed_layers_append)
  qed
  then show ?thesis by (simp only: L_def)
qed

section \<open>The stream bridge\<close>

lemma set_interleave: "set (interleave s xs ys) = set xs \<union> set ys"
  by (induction s xs ys rule: interleave.induct) auto

lemma filter_interleave_left:
  "list_all P xs \<Longrightarrow> list_all (\<lambda>y. \<not> P y) ys \<Longrightarrow> filter P (interleave s xs ys) = xs"
  by (induction s xs ys rule: interleave.induct) (auto simp: list_all_iff)

lemma filter_interleave_right:
  "list_all (\<lambda>x. \<not> P x) xs \<Longrightarrow> list_all P ys \<Longrightarrow> filter P (interleave s xs ys) = ys"
  by (induction s xs ys rule: interleave.induct) (auto simp: list_all_iff)

lemma filter_interleave_none:
  "list_all (\<lambda>x. \<not> P x) xs \<Longrightarrow> list_all (\<lambda>x. \<not> P x) ys \<Longrightarrow> filter P (interleave s xs ys) = []"
  by (induction s xs ys rule: interleave.induct) (auto simp: list_all_iff)

lemma events_of_append: "events_of g (xs @ ys) = events_of g xs @ events_of g ys"
  by (simp add: events_of_def)

lemma events_of_Cons:
  "events_of g ((h, e) # tr) = (if h = g then e # events_of g tr else events_of g tr)"
  by (simp add: events_of_def)

lemma events_of_Nil: "events_of g [] = []"
  by (simp add: events_of_def)

lemma events_of_interleave_left:
  "g \<noteq> h \<Longrightarrow> events_of g (interleave s (map (Pair g) xs) (map (Pair h) ys)) = xs"
  unfolding events_of_def
  by (subst filter_interleave_left) (auto simp: list_all_iff comp_def)

lemma events_of_interleave_right:
  "g \<noteq> h \<Longrightarrow> events_of h (interleave s (map (Pair g) xs) (map (Pair h) ys)) = ys"
  unfolding events_of_def
  by (subst filter_interleave_right) (auto simp: list_all_iff comp_def)

lemma events_of_interleave_other:
  "f \<noteq> g \<Longrightarrow> f \<noteq> h \<Longrightarrow> events_of f (interleave s (map (Pair g) xs) (map (Pair h) ys)) = []"
  unfolding events_of_def
  by (subst filter_interleave_none) (auto simp: list_all_iff comp_def)

text \<open>The trace of \<^verbatim>\<open>Handle\<close> when the stream opens.\<close>

lemma Handle_open:
  assumes "smuxSession t = Some sess" and "smux_OpenStream w sess = Inr sid"
    and "kcpConn t = Some k"
  shows "Handle sched w t lc r1 r2 =
     (let running =
            (Caller, OpenStream (Inr sid))
            # (Caller, Log (LogBeginStream (conv k) sid))
            # interleave sched
                (map (Pair LocalToStream) (copy_local_to_stream (conv k) sid lc r1))
                (map (Pair StreamToLocal) (copy_stream_to_local (conv k) sid lc r2))
      in if r1 = None \<or> r2 = None then (Blocked, running)
         else (Return None,
               running @ [(Caller, Log (LogEndStream (conv k) sid)), (Caller, StreamClose sid)]))"
  using assms by (simp add: Handle_def)

lemma copy_local_to_stream_shape:
  "\<exists>logs. copy_local_to_stream c sid lc (Some e) = CopyDone e # logs @ [CloseRead lc, StreamClose sid]
     \<and> list_all is_Log logs
     \<and> (e = None \<or> e = Some EOF \<longrightarrow> logs = [])
     \<and> (\<forall>x. e = Some x \<and> x \<noteq> EOF \<and> \<not> errors_Is x ErrClosedPipe
           \<longrightarrow> logs = [Log (LogCopyStreamLocal c sid x)])"
  by (cases e) (auto simp: copy_local_to_stream_def)

lemma copy_stream_to_local_shape:
  "\<exists>logs. copy_stream_to_local c sid lc (Some e) = CopyDone e # logs @ [CloseWrite lc]
     \<and> list_all is_Log logs
     \<and> (e = None \<or> e = Some EOF \<longrightarrow> logs = [])
     \<and> (\<forall>x. e = Some x \<and> x \<noteq> EOF \<and> \<not> errors_Is x ErrClosedPipe
           \<longrightarrow> logs = [Log (LogCopyLocalStream c sid x)])"
  by (cases e) (auto simp: copy_stream_to_local_def)

lemma StreamClose_not_in_copy_stream_to_local:
  "StreamClose sid \<notin> set (copy_stream_to_local c sid' lc r)"
  by (cases r) (auto simp: copy_stream_to_local_def split: option.splits)


text \<open>
  C10: when the tunnel has its smux session and its KCP connection (as every tunnel that
  \<^verbatim>\<open>Start\<close> hands to \<^verbatim>\<open>Handle\<close>) and the stream opens, and both copies complete,
  \<^verbatim>\<open>Handle\<close> returns \<^verbatim>\<open>nil\<close> whatever the copies returned. An error of a copy other than
  \<^verbatim>\<open>io.EOF\<close> and a closed pipe is logged by the goroutine of its direction; the caller of
  \<^verbatim>\<open>Handle\<close> in \<^verbatim>\<open>Start\<close> gets \<^verbatim>\<open>nil\<close>, logs nothing and closes the connection.
\<close>

theorem Handle_returns_nil:
  assumes "smuxSession t = Some sess" and "smux_OpenStream w sess = Inr sid"
    and "kcpConn t = Some k"
  shows "fst (Handle sched w t lc (Some e1) (Some e2)) = Return None
       \<and> (\<forall>x. e1 = Some x \<and> x \<noteq> EOF \<and> \<not> errors_Is x ErrClosedPipe
             \<longrightarrow> (LocalToStream, Log (LogCopyStreamLocal (conv k) sid x))
                   \<in> set (snd (Handle sched w t lc (Some e1) (Some e2))))
       \<and> (\<forall>x. e2 = Some x \<and> x \<noteq> EOF \<and> \<not> errors_Is x ErrClosedPipe
             \<longrightarrow> (StreamToLocal, Log (LogCopyLocalStream (conv k) sid x))
                   \<in> set (snd (Handle sched w t lc (Some e1) (Some e2))))
       \<and> Start_go sched w t lc (Some e1) (Some e2)
           = (Return (), snd (Handle sched w t lc (Some e1) (Some e2)) @ [(Caller, ConnClose lc)])"
proof -
  note h = Handle_open [OF assms, of sched lc "Some e1" "Some e2"]
  have r: "fst (Handle sched w t lc (Some e1) (Some e2)) = Return None"
    by (simp add: h Let_def)
  have hs: "set (snd (Handle sched w t lc (Some e1) (Some e2)))
      = set ((Caller, OpenStream (Inr sid))
            # (Caller, Log (LogBeginStream (conv k) sid))
            # interleave sched
                (map (Pair LocalToStream) (copy_local_to_stream (conv k) sid lc (Some e1)))
                (map (Pair StreamToLocal) (copy_stream_to_local (conv k) sid lc (Some e2)))
            @ [(Caller, Log (LogEndStream (conv k) sid)), (Caller, StreamClose sid)])"
    by (simp add: h Let_def)
  have l1: "(LocalToStream, Log (LogCopyStreamLocal (conv k) sid x))
              \<in> set (snd (Handle sched w t lc (Some e1) (Some e2)))"
    if "e1 = Some x" "x \<noteq> EOF" "\<not> errors_Is x ErrClosedPipe" for x
    unfolding hs using that by (simp add: set_interleave copy_local_to_stream_def)
  have l2: "(StreamToLocal, Log (LogCopyLocalStream (conv k) sid x))
              \<in> set (snd (Handle sched w t lc (Some e1) (Some e2)))"
    if "e2 = Some x" "x \<noteq> EOF" "\<not> errors_Is x ErrClosedPipe" for x
    unfolding hs using that by (simp add: set_interleave copy_stream_to_local_def)
  have g: "Start_go sched w t lc (Some e1) (Some e2)
           = (Return (), snd (Handle sched w t lc (Some e1) (Some e2)) @ [(Caller, ConnClose lc)])"
    using r by (cases "Handle sched w t lc (Some e1) (Some e2)") (simp add: Start_go_def)
  from r l1 l2 g show ?thesis by blast
qed

text \<open>
  An instance: the copy from the local connection ends on a reset connection, the other
  one on \<^verbatim>\<open>io.EOF\<close>.
\<close>

theorem Handle_returns_nil_witness:
  "smuxSession sample_tunnel = Some 4
   \<and> smux_OpenStream sample_world 4 = Inr 3
   \<and> kcpConn sample_tunnel = Some sample_session
   \<and> fst (Handle [True, False] sample_world sample_tunnel 9
            (Some (Some (ErrExternal ''connection reset''))) (Some (Some EOF))) = Return None
   \<and> (LocalToStream, Log (LogCopyStreamLocal 7 3 (ErrExternal ''connection reset'')))
        \<in> set (snd (Handle [True, False] sample_world sample_tunnel 9
                      (Some (Some (ErrExternal ''connection reset''))) (Some (Some EOF))))"
proof -
  have a: "smuxSession sample_tunnel = Some 4"
    by (simp add: sample_tunnel_def)
  have b: "smux_OpenStream sample_world 4 = Inr 3"
    by (simp add: sample_world_def)
  have c: "kcpConn sample_tunnel = Some sample_session"
    by (simp add: sample_tunnel_def)
  have d: "conv sample_session = 7"
    by (simp add: sample_session_def)
  have e: "ErrExternal ''connection reset'' \<noteq> EOF
           \<and> \<not> errors_Is (ErrExternal ''connection reset'') ErrClosedPipe"
    by simp
  from Handle_returns_nil [OF a b c, of "[True, False]" 9
      "Some (ErrExternal ''connection reset'')" "Some EOF"] d e
  have "fst (Handle [True, False] sample_world sample_tunnel 9
            (Some (Some (ErrExternal ''connection reset''))) (Some (Some EOF))) = Return None"
    and "(LocalToStream, Log (LogCopyStreamLocal 7 3 (ErrExternal ''connection reset'')))
        \<in> set (snd (Handle [True, False] sample_world sample_tunnel 9
                      (Some (Some (ErrExternal ''connection reset''))) (Some (Some EOF))))"
    by simp_all
  with a b c show ?thesis by simp
qed

text \<open>
  C7: for a connection handled with the stream open, in every schedule of the two copy
  goroutines. When the copy local to stream completes, its goroutine signals read-closed
  on the local connection and closes the stream; when the copy stream to local
  completes, its goroutine signals write-closed on the local connection, and it never
  closes the stream. After a copy that ends with \<^verbatim>\<open>nil\<close> or \<^verbatim>\<open>io.EOF\<close> nothing is logged.
  The caller closes the stream and then the local connection only when both directions
  are done, after every event of theirs; while a copy has not completed it does neither.
\<close>

theorem Handle_half_close:
  assumes "smuxSession t = Some sess" and "smux_OpenStream w sess = Inr sid"
    and "kcpConn t = Some k"
  shows "let tr = snd (Start_go sched w t lc r1 r2) in
         (\<forall>e1. r1 = Some e1 \<longrightarrow>
            (\<exists>logs. events_of LocalToStream tr = CopyDone e1 # logs @ [CloseRead lc, StreamClose sid]
                \<and> list_all is_Log logs \<and> (e1 = None \<or> e1 = Some EOF \<longrightarrow> logs = [])))
       \<and> (\<forall>e2. r2 = Some e2 \<longrightarrow>
            (\<exists>logs. events_of StreamToLocal tr = CopyDone e2 # logs @ [CloseWrite lc]
                \<and> list_all is_Log logs \<and> (e2 = None \<or> e2 = Some EOF \<longrightarrow> logs = [])))
       \<and> StreamClose sid \<notin> set (events_of StreamToLocal tr)
       \<and> (r1 = None \<or> r2 = None \<longrightarrow>
            (Caller, StreamClose sid) \<notin> set tr \<and> (Caller, ConnClose lc) \<notin> set tr)
       \<and> (r1 \<noteq> None \<and> r2 \<noteq> None \<longrightarrow>
            (\<exists>mid. tr = (Caller, OpenStream (Inr sid)) # (Caller, Log (LogBeginStream (conv k) sid))
                        # mid @ [(Caller, Log (LogEndStream (conv k) sid)),
                                 (Caller, StreamClose sid), (Caller, ConnClose lc)]
                \<and> events_of Caller mid = []
                \<and> events_of LocalToStream mid = events_of LocalToStream tr
                \<and> events_of StreamToLocal mid = events_of StreamToLocal tr))"
proof -
  define tr where "tr = snd (Start_go sched w t lc r1 r2)"
  define A where "A = copy_local_to_stream (conv k) sid lc r1"
  define B where "B = copy_stream_to_local (conv k) sid lc r2"
  define mid where "mid = interleave sched (map (Pair LocalToStream) A) (map (Pair StreamToLocal) B)"
  note h = Handle_open [OF assms(1-3), of sched lc r1 r2, folded A_def B_def mid_def]
  have mA: "events_of LocalToStream mid = A"
    unfolding mid_def by (rule events_of_interleave_left) simp
  have mB: "events_of StreamToLocal mid = B"
    unfolding mid_def by (rule events_of_interleave_right) simp
  have mC: "events_of Caller mid = []"
    unfolding mid_def by (rule events_of_interleave_other) simp_all
  have blocked: "tr = (Caller, OpenStream (Inr sid)) # (Caller, Log (LogBeginStream (conv k) sid)) # mid"
    if "r1 = None \<or> r2 = None"
    using that by (auto simp: tr_def Start_go_def h Let_def)
  have fin: "tr = (Caller, OpenStream (Inr sid)) # (Caller, Log (LogBeginStream (conv k) sid))
                        # mid @ [(Caller, Log (LogEndStream (conv k) sid)),
                                 (Caller, StreamClose sid), (Caller, ConnClose lc)]"
    if "r1 \<noteq> None \<and> r2 \<noteq> None"
    using that by (auto simp: tr_def Start_go_def h Let_def)
  have tA: "events_of LocalToStream tr = A"
    using blocked fin mA by (cases "r1 = None \<or> r2 = None") (auto simp: events_of_Cons events_of_append events_of_Nil)
  have tB: "events_of StreamToLocal tr = B"
    using blocked fin mB by (cases "r1 = None \<or> r2 = None") (auto simp: events_of_Cons events_of_append events_of_Nil)
  have c1: "\<exists>logs. events_of LocalToStream tr = CopyDone e1 # logs @ [CloseRead lc, StreamClose sid]
                \<and> list_all is_Log logs \<and> (e1 = None \<or> e1 = Some EOF \<longrightarrow> logs = [])"
    if "r1 = Some e1" for e1
    using copy_local_to_stream_shape [of "conv k" sid lc e1] that unfolding tA A_def by blast
  have c2: "\<exists>logs. events_of StreamToLocal tr = CopyDone e2 # logs @ [CloseWrite lc]
                \<and> list_all is_Log logs \<and> (e2 = None \<or> e2 = Some EOF \<longrightarrow> logs = [])"
    if "r2 = Some e2" for e2
    using copy_stream_to_local_shape [of "conv k" sid lc e2] that unfolding tB B_def by blast
  have c3: "StreamClose sid \<notin> set (events_of StreamToLocal tr)"
    unfolding tB B_def by (rule StreamClose_not_in_copy_stream_to_local)
  have inmid: "(Caller, e) \<notin> set mid" for e
    unfolding mid_def by (auto simp: set_interleave)
  have c4: "(Caller, StreamClose sid) \<notin> set tr \<and> (Caller, ConnClose lc) \<notin> set tr"
    if "r1 = None \<or> r2 = None"
    unfolding blocked [OF that] using inmid by simp
  have c5: "\<exists>m. tr = (Caller, OpenStream (Inr sid)) # (Caller, Log (LogBeginStream (conv k) sid))
                        # m @ [(Caller, Log (LogEndStream (conv k) sid)),
                                 (Caller, StreamClose sid), (Caller, ConnClose lc)]
                \<and> events_of Caller m = []
                \<and> events_of LocalToStream m = events_of LocalToStream tr
                \<and> events_of StreamToLocal m = events_of StreamToLocal tr"
    if "r1 \<noteq> None \<and> r2 \<noteq> None"
    using fin [OF that] mA mB mC tA tB by blast
  show ?thesis
    unfolding Let_def tr_def [symmetric] using c1 c2 c3 c4 c5 by blast
qed


text \<open>
  An instance, with its whole trace: the copy from the local connection ends on \<^verbatim>\<open>io.EOF\<close>,
  the other one with \<^verbatim>\<open>nil\<close>.
\<close>

theorem Handle_half_close_witness:
  "smuxSession sample_tunnel = Some 4
   \<and> smux_OpenStream sample_world 4 = Inr 3
   \<and> kcpConn sample_tunnel = Some sample_session
   \<and> events_of LocalToStream
        (snd (Start_go [True, False, True] sample_world sample_tunnel 9 (Some (Some EOF)) (Some None)))
       = [CopyDone (Some EOF), CloseRead 9, StreamClose 3]
   \<and> events_of StreamToLocal
        (snd (Start_go [True, False, True] sample_world sample_tunnel 9 (Some (Some EOF)) (Some None)))
       = [CopyDone None, CloseWrite 9]
   \<and> StreamClose 3 \<notin> set (events_of StreamToLocal
        (snd (Start_go [True, False, True] sample_world sample_tunnel 9 (Some (Some EOF)) (Some None))))
   \<and> snd (Start_go [True, False, True] sample_world sample_tunnel 9 (Some (Some EOF)) (Some None))
       = [(Caller, OpenStream (Inr 3)), (Caller, Log (LogBeginStream 7 3)),
          (LocalToStream, CopyDone (Some EOF)), (StreamToLocal, CopyDone None),
          (LocalToStream, CloseRead 9), (LocalToStream, StreamClose 3),
          (StreamToLocal, CloseWrite 9),
          (Caller, Log (LogEndStream 7 3)), (Caller, StreamClose 3), (Caller, ConnClose 9)]"
proof -
  have a: "smuxSession sample_tunnel = Some 4"
    by (simp add: sample_tunnel_def)
  have b: "smux_OpenStream sample_world 4 = Inr 3"
    by (simp add: sample_world_def)
  have c: "kcpConn sample_tunnel = Some sample_session"
    by (simp add: sample_tunnel_def)
  note th = Handle_half_close [OF a b c, of "[True, False, True]" 9 "Some (Some EOF)" "Some None",
      unfolded Let_def]
  from th have "\<exists>logs. events_of LocalToStream
        (snd (Start_go [True, False, True] sample_world sample_tunnel 9 (Some (Some EOF)) (Some None)))
       = CopyDone (Some EOF) # logs @ [CloseRead 9, StreamClose 3] \<and> logs = []"
    by blast
  then have l: "events_of LocalToStream
        (snd (Start_go [True, False, True] sample_world sample_tunnel 9 (Some (Some EOF)) (Some None)))
       = [CopyDone (Some EOF), CloseRead 9, StreamClose 3]"
    by auto
  from th have "\<exists>logs. events_of StreamToLocal
        (snd (Start_go [True, False, True] sample_world sample_tunnel 9 (Some (Some EOF)) (Some None)))
       = CopyDone None # logs @ [CloseWrite 9] \<and> logs = []"
    by blast
  then have r: "events_of StreamToLocal
        (snd (Start_go [True, False, True] sample_world sample_tunnel 9 (Some (Some EOF)) (Some None)))
       = [CopyDone None, CloseWrite 9]"
    by auto
  from th have n: "StreamClose 3 \<notin> set (events_of StreamToLocal
        (snd (Start_go [True, False, True] sample_world sample_tunnel 9 (Some (Some EOF)) (Some None))))"
    by blast
  have tr: "snd (Start_go [True, False, True] sample_world sample_tunnel 9 (Some (Some EOF)) (Some None))
       = [(Caller, OpenStream (Inr 3)), (Caller, Log (LogBeginStream 7 3)),
          (LocalToStream, CopyDone (Some EOF)), (StreamToLocal, CopyDone None),
          (LocalToStream, CloseRead 9), (LocalToStream, StreamClose 3),
          (StreamToLocal, CloseWrite 9),
          (Caller, Log (LogEndStream 7 3)), (Caller, StreamClose 3), (Caller, ConnClose 9)]"
    by (simp add: Start_go_def Handle_def sample_tunnel_def sample_world_def sample_session_def
        copy_local_to_stream_def copy_stream_to_local_def)
  from a b c l r n tr show ?thesis by blast
qed

section \<open>The bring-up\<close>

lemma nonlog_simps [simp]:
  "nonlog [] = []"
  "nonlog (e # es) = (if is_Log e then nonlog es else e # nonlog es)"
  "nonlog (xs @ ys) = nonlog xs @ nonlog ys"
  by (simp_all add: nonlog_def)

lemma stage_logs:
  "InitiateResolverConnection w t = (x, t', es) \<Longrightarrow> nonlog es = [] \<and> x \<noteq> Blocked"
  "InitiateDNSPacketConn t n = (x, t', es) \<Longrightarrow> nonlog es = [] \<and> x \<noteq> Blocked"
  "InitiateKCPConn D w t m = (x, t', es) \<Longrightarrow> nonlog es = [] \<and> x \<noteq> Blocked"
  "InitiateNoiseChannel w t = (x, t', es) \<Longrightarrow> nonlog es = [] \<and> x \<noteq> Blocked"
  "InitiateSmuxSession w t = (x, t', es) \<Longrightarrow> nonlog es = [] \<and> x \<noteq> Blocked"
  by (auto simp: InitiateResolverConnection_def InitiateDNSPacketConn_def InitiateKCPConn_def
      InitiateNoiseChannel_def InitiateSmuxSession_def Let_def
      split: sum.splits if_splits option.splits prod.splits)

lemma Start_loop_shape:
  "fst (Start_loop accepts) = Blocked
   \<and> accept_answers (snd (Start_loop accepts)) = accepts
   \<and> spawned (snd (Start_loop accepts)) = map projr (filter (\<lambda>a. \<not> isl a) accepts)
   \<and> filter is_Log (snd (Start_loop accepts)) = []
   \<and> entered (snd (Start_loop accepts)) = []
   \<and> closed_layers (snd (Start_loop accepts)) = []"
proof (induction accepts)
  case Nil
  show ?case by simp
next
  case (Cons a as)
  then show ?case
    by (cases a; cases "Start_loop as") (simp_all add: Start_accept_def)
qed

lemma try_stage_cases:
  assumes "try_stage s msg r rest = (x, t, es)"
    and "nonlog (snd (snd r)) = [] \<and> fst r \<noteq> Blocked"
  shows "(fst r = Return None
          \<and> (\<exists>es'. rest (fst (snd r)) = (x, t, es')
                \<and> nonlog es = Enter s # Leave s (Return None) # nonlog es'))
       \<or> (fst r \<noteq> Return None \<and> fst r \<noteq> Blocked \<and> x \<noteq> Blocked
          \<and> nonlog es = [Enter s, Leave s (fst r)]
          \<and> (\<forall>err. fst r = Return (Some err) \<longrightarrow> x = Return (ErrorfW msg [] err))
          \<and> (\<forall>p. fst r = Panic p \<longrightarrow> x = Panic p))"
  using assms
  by (cases r) (auto simp: try_stage_def split: prod.splits exit.splits option.splits)

lemma emit_nonlog:
  assumes "emit ls r = (x, t, es)" and "nonlog ls = []"
  shows "\<exists>es'. r = (x, t, es') \<and> nonlog es = nonlog es'"
  using assms by (cases r) (auto simp: emit_def)

text \<open>
  The bring-up, without its log lines: either one stage does not return \<^verbatim>\<open>nil\<close> after all the
  stages before it have, and it is the last one entered, or the five stages return \<^verbatim>\<open>nil\<close>
  and the accept loop follows.
\<close>

lemma Start_bring_up_cases:
  assumes "Start_bring_up D w tunnel ts accepts = (x, t, es)"
  shows "(\<exists>r. r \<noteq> Return None \<and> r \<noteq> Blocked \<and> x \<noteq> Blocked
          \<and> nonlog es = [Enter StageResolver, Leave StageResolver r]
          \<and> (\<forall>err. r = Return (Some err) \<longrightarrow> x = Return (ErrorfW ''failed to initiate connection to resolver: %w'' [] err))
          \<and> (\<forall>p. r = Panic p \<longrightarrow> x = Panic p))
       \<or> (\<exists>r. r \<noteq> Return None \<and> r \<noteq> Blocked \<and> x \<noteq> Blocked
          \<and> nonlog es = [Enter StageResolver, Leave StageResolver (Return None), Enter StageDNSPacketConn, Leave StageDNSPacketConn r]
          \<and> (\<forall>err. r = Return (Some err) \<longrightarrow> x = Return (ErrorfW ''failed to initiate DNS packet connection: %w'' [] err))
          \<and> (\<forall>p. r = Panic p \<longrightarrow> x = Panic p))
       \<or> (\<exists>r. r \<noteq> Return None \<and> r \<noteq> Blocked \<and> x \<noteq> Blocked
          \<and> nonlog es = [Enter StageResolver, Leave StageResolver (Return None), Enter StageDNSPacketConn, Leave StageDNSPacketConn (Return None), Enter StageKCPConn, Leave StageKCPConn r]
          \<and> (\<forall>err. r = Return (Some err) \<longrightarrow> x = Return (ErrorfW ''failed to initiate KCP connection: %w'' [] err))
          \<and> (\<forall>p. r = Panic p \<longrightarrow> x = Panic p))
       \<or> (\<exists>r. r \<noteq> Return None \<and> r \<noteq> Blocked \<and> x \<noteq> Blocked
          \<and> nonlog es = [Enter StageResolver, Leave StageResolver (Return None), Enter StageDNSPacketConn, Leave StageDNSPacketConn (Return None), Enter StageKCPConn, Leave StageKCPConn (Return None), Enter StageNoiseChannel, Leave StageNoiseChannel r]
          \<and> (\<forall>err. r = Return (Some err) \<longrightarrow> x = Return (ErrorfW ''failed to initiate Noise channel: %w'' [] err))
          \<and> (\<forall>p. r = Panic p \<longrightarrow> x = Panic p))
       \<or> (\<exists>r. r \<noteq> Return None \<and> r \<noteq> Blocked \<and> x \<noteq> Blocked
          \<and> nonlog es = [Enter StageResolver, Leave StageResolver (Return None), Enter StageDNSPacketConn, Leave StageDNSPacketConn (Return None), Enter StageKCPConn, Leave StageKCPConn (Return None), Enter StageNoiseChannel, Leave StageNoiseChannel (Return None), Enter StageSmuxSession, Leave StageSmuxSession r]
          \<and> (\<forall>err. r = Return (Some err) \<longrightarrow> x = Return (ErrorfW ''failed to initiate smux session: %w'' [] err))
          \<and> (\<forall>p. r = Panic p \<longrightarrow> x = Panic p))
       \<or> (x = Blocked \<and> nonlog es = [Enter StageResolver, Leave StageResolver (Return None), Enter StageDNSPacketConn, Leave StageDNSPacketConn (Return None), Enter StageKCPConn, Leave StageKCPConn (Return None), Enter StageNoiseChannel, Leave StageNoiseChannel (Return None), Enter StageSmuxSession, Leave StageSmuxSession (Return None)] @ snd (Start_loop accepts))"
proof -
  define ok :: "stage \<Rightarrow> event list" where "ok s = [Enter s, Leave s (Return None)]" for s
  define F :: "event list \<Rightarrow> stage \<Rightarrow> string \<Rightarrow> error exit \<Rightarrow> event list \<Rightarrow> bool" where
    "F pre s msg x' es' \<longleftrightarrow>
       (\<exists>r. r \<noteq> Return None \<and> r \<noteq> Blocked \<and> x' \<noteq> Blocked
          \<and> nonlog es' = pre @ [Enter s, Leave s r]
          \<and> (\<forall>err. r = Return (Some err) \<longrightarrow> x' = Return (ErrorfW msg [] err))
          \<and> (\<forall>p. r = Panic p \<longrightarrow> x' = Panic p))" for pre s msg x' es'
  define G :: "event list \<Rightarrow> error exit \<Rightarrow> event list \<Rightarrow> bool" where
    "G pre x' es' \<longleftrightarrow> x' = Blocked \<and> nonlog es' = pre @ snd (Start_loop accepts)" for pre x' es'
  define k5 :: "Tunnel \<Rightarrow> error call" where
    "k5 = (\<lambda>t5. case Start_loop accepts of (x, es) \<Rightarrow> (x, t5, es))"
  define k4 where "k4 = (\<lambda>t4. try_stage StageSmuxSession ''failed to initiate smux session: %w'' (InitiateSmuxSession w t4) k5)"
  define k3 where "k3 = (\<lambda>t3. try_stage StageNoiseChannel ''failed to initiate Noise channel: %w'' (InitiateNoiseChannel w t3) k4)"
  define k2 where "k2 = (\<lambda>t2. emit [Log (LogEffectiveMTU (MTU ts))]
      (try_stage StageKCPConn ''failed to initiate KCP connection: %w'' (InitiateKCPConn D w t2 (MTU ts)) k3))"
  define k1 where "k1 = (\<lambda>t1. try_stage StageDNSPacketConn ''failed to initiate DNS packet connection: %w''
      (InitiateDNSPacketConn t1 (Addr ts)) k2)"
  have top: "try_stage StageResolver ''failed to initiate connection to resolver: %w'' (InitiateResolverConnection w tunnel) k1 = (x, t, es)"
    using assms by (simp add: Start_bring_up_def k1_def k2_def k3_def k4_def k5_def)
  have step: "F [] s msg x' es' \<or> (\<exists>es''. rest (fst (snd r)) = (x', t', es'') \<and> nonlog es' = ok s @ nonlog es'')"
    if "try_stage s msg r rest = (x', t', es')" and "nonlog (snd (snd r)) = [] \<and> fst r \<noteq> Blocked"
    for s msg r rest x' t' es'
    using try_stage_cases [OF that] unfolding F_def ok_def by auto
  have liftF: "F (ok s0 @ pre) s msg x' es' = F pre s msg x' es''"
    if "nonlog es' = ok s0 @ nonlog es''" for s0 pre s msg x' es' es''
    using that unfolding F_def by simp
  have liftF0: "F (ok s0) s msg x' es' = F [] s msg x' es''"
    if "nonlog es' = ok s0 @ nonlog es''" for s0 s msg x' es' es''
    using liftF [OF that, of "[]"] by simp
  have liftG: "G (ok s0 @ pre) x' es' = G pre x' es''"
    if "nonlog es' = ok s0 @ nonlog es''" for s0 pre x' es' es''
    using that unfolding G_def by simp
  have liftG0: "G (ok s0) x' es' = G [] x' es''"
    if "nonlog es' = ok s0 @ nonlog es''" for s0 x' es' es''
    using liftG [OF that, of "[]"] by simp
  have loop: "nonlog (snd (Start_loop accepts)) = snd (Start_loop accepts)"
    using Start_loop_shape [of accepts] by (simp add: nonlog_def filter_id_conv filter_empty_conv)
  have l1: "nonlog (snd (snd (InitiateResolverConnection w t'))) = []
            \<and> fst (InitiateResolverConnection w t') \<noteq> Blocked" for t'
    using stage_logs(1) [of w t'] by (metis prod.collapse)
  have l2: "nonlog (snd (snd (InitiateDNSPacketConn t' n))) = []
            \<and> fst (InitiateDNSPacketConn t' n) \<noteq> Blocked" for t' n
    using stage_logs(2) [of t' n] by (metis prod.collapse)
  have l3: "nonlog (snd (snd (InitiateKCPConn D w t' m))) = []
            \<and> fst (InitiateKCPConn D w t' m) \<noteq> Blocked" for t' m
    using stage_logs(3) [of D w t' m] by (metis prod.collapse)
  have l4: "nonlog (snd (snd (InitiateNoiseChannel w t'))) = []
            \<and> fst (InitiateNoiseChannel w t') \<noteq> Blocked" for t'
    using stage_logs(4) [of w t'] by (metis prod.collapse)
  have l5: "nonlog (snd (snd (InitiateSmuxSession w t'))) = []
            \<and> fst (InitiateSmuxSession w t') \<noteq> Blocked" for t'
    using stage_logs(5) [of w t'] by (metis prod.collapse)
  have c5: "G [] x' es'" if "k5 t5 = (x', t', es')" for t5 x' t' es'
    using that Start_loop_shape [of accepts] loop
    by (cases "Start_loop accepts") (auto simp: k5_def G_def)
  have c4: "F [] StageSmuxSession ''failed to initiate smux session: %w'' x' es'
        \<or> G (ok StageSmuxSession) x' es'"
    if "k4 t4 = (x', t', es')" for t4 x' t' es'
  proof -
    from step [OF that [unfolded k4_def] l5] show ?thesis
    proof (elim disjE exE conjE)
      assume "F [] StageSmuxSession ''failed to initiate smux session: %w'' x' es'"
      then show ?thesis by simp
    next
      fix es''
      assume k: "k5 (fst (snd (InitiateSmuxSession w t4))) = (x', t', es'')"
        and n: "nonlog es' = ok StageSmuxSession @ nonlog es''"
      from c5 [OF k] show ?thesis
        by (simp add: liftF0 [OF n] liftF [OF n] liftG0 [OF n] liftG [OF n])
    qed
  qed
  have c3: "F [] StageNoiseChannel ''failed to initiate Noise channel: %w'' x' es'
        \<or> F (ok StageNoiseChannel) StageSmuxSession ''failed to initiate smux session: %w'' x' es'
        \<or> G (ok StageNoiseChannel @ ok StageSmuxSession) x' es'"
    if "k3 t3 = (x', t', es')" for t3 x' t' es'
  proof -
    from step [OF that [unfolded k3_def] l4] show ?thesis
    proof (elim disjE exE conjE)
      assume "F [] StageNoiseChannel ''failed to initiate Noise channel: %w'' x' es'"
      then show ?thesis by simp
    next
      fix es''
      assume k: "k4 (fst (snd (InitiateNoiseChannel w t3))) = (x', t', es'')"
        and n: "nonlog es' = ok StageNoiseChannel @ nonlog es''"
      from c4 [OF k] show ?thesis
        by (simp add: liftF0 [OF n] liftF [OF n] liftG0 [OF n] liftG [OF n])
    qed
  qed
  have c2a: "F [] StageKCPConn ''failed to initiate KCP connection: %w'' x' es'
        \<or> F (ok StageKCPConn) StageNoiseChannel ''failed to initiate Noise channel: %w'' x' es'
        \<or> F (ok StageKCPConn @ ok StageNoiseChannel) StageSmuxSession ''failed to initiate smux session: %w'' x' es'
        \<or> G (ok StageKCPConn @ ok StageNoiseChannel @ ok StageSmuxSession) x' es'"
    if "try_stage StageKCPConn ''failed to initiate KCP connection: %w'' (InitiateKCPConn D w t2 (MTU ts)) k3 = (x', t', es')"
    for t2 x' t' es'
  proof -
    from step [OF that l3] show ?thesis
    proof (elim disjE exE conjE)
      assume "F [] StageKCPConn ''failed to initiate KCP connection: %w'' x' es'"
      then show ?thesis by simp
    next
      fix es''
      assume k: "k3 (fst (snd (InitiateKCPConn D w t2 (MTU ts)))) = (x', t', es'')"
        and n: "nonlog es' = ok StageKCPConn @ nonlog es''"
      from c3 [OF k] show ?thesis
        by (simp add: liftF0 [OF n] liftF [OF n] liftG0 [OF n] liftG [OF n])
    qed
  qed
  have c2: "F [] StageKCPConn ''failed to initiate KCP connection: %w'' x' es'
        \<or> F (ok StageKCPConn) StageNoiseChannel ''failed to initiate Noise channel: %w'' x' es'
        \<or> F (ok StageKCPConn @ ok StageNoiseChannel) StageSmuxSession ''failed to initiate smux session: %w'' x' es'
        \<or> G (ok StageKCPConn @ ok StageNoiseChannel @ ok StageSmuxSession) x' es'"
    if "k2 t2 = (x', t', es')" for t2 x' t' es'
  proof -
    from emit_nonlog [OF that [unfolded k2_def]]
    obtain es0 where e: "try_stage StageKCPConn ''failed to initiate KCP connection: %w'' (InitiateKCPConn D w t2 (MTU ts)) k3 = (x', t', es0)"
      and n: "nonlog es' = nonlog es0" by auto
    from c2a [OF e] show ?thesis using n unfolding F_def G_def by simp
  qed
  have c1: "F [] StageDNSPacketConn ''failed to initiate DNS packet connection: %w'' x' es'
        \<or> F (ok StageDNSPacketConn) StageKCPConn ''failed to initiate KCP connection: %w'' x' es'
        \<or> F (ok StageDNSPacketConn @ ok StageKCPConn) StageNoiseChannel ''failed to initiate Noise channel: %w'' x' es'
        \<or> F (ok StageDNSPacketConn @ ok StageKCPConn @ ok StageNoiseChannel) StageSmuxSession ''failed to initiate smux session: %w'' x' es'
        \<or> G (ok StageDNSPacketConn @ ok StageKCPConn @ ok StageNoiseChannel @ ok StageSmuxSession) x' es'"
    if "k1 t1 = (x', t', es')" for t1 x' t' es'
  proof -
    from step [OF that [unfolded k1_def] l2] show ?thesis
    proof (elim disjE exE conjE)
      assume "F [] StageDNSPacketConn ''failed to initiate DNS packet connection: %w'' x' es'"
      then show ?thesis by simp
    next
      fix es''
      assume k: "k2 (fst (snd (InitiateDNSPacketConn t1 (Addr ts)))) = (x', t', es'')"
        and n: "nonlog es' = ok StageDNSPacketConn @ nonlog es''"
      from c2 [OF k] show ?thesis
        by (simp add: liftF0 [OF n] liftF [OF n] liftG0 [OF n] liftG [OF n])
    qed
  qed
  have c0: "F [] StageResolver ''failed to initiate connection to resolver: %w'' x' es'
        \<or> F (ok StageResolver) StageDNSPacketConn ''failed to initiate DNS packet connection: %w'' x' es'
        \<or> F (ok StageResolver @ ok StageDNSPacketConn) StageKCPConn ''failed to initiate KCP connection: %w'' x' es'
        \<or> F (ok StageResolver @ ok StageDNSPacketConn @ ok StageKCPConn) StageNoiseChannel ''failed to initiate Noise channel: %w'' x' es'
        \<or> F (ok StageResolver @ ok StageDNSPacketConn @ ok StageKCPConn @ ok StageNoiseChannel) StageSmuxSession ''failed to initiate smux session: %w'' x' es'
        \<or> G (ok StageResolver @ ok StageDNSPacketConn @ ok StageKCPConn @ ok StageNoiseChannel @ ok StageSmuxSession) x' es'"
    if "try_stage StageResolver ''failed to initiate connection to resolver: %w'' (InitiateResolverConnection w tunnel) k1 = (x', t', es')"
    for x' t' es'
  proof -
    from step [OF that l1] show ?thesis
    proof (elim disjE exE conjE)
      assume "F [] StageResolver ''failed to initiate connection to resolver: %w'' x' es'"
      then show ?thesis by simp
    next
      fix es''
      assume k: "k1 (fst (snd (InitiateResolverConnection w tunnel))) = (x', t', es'')"
        and n: "nonlog es' = ok StageResolver @ nonlog es''"
      from c1 [OF k] show ?thesis
        by (simp add: liftF0 [OF n] liftF [OF n] liftG0 [OF n] liftG [OF n])
    qed
  qed
  from c0 [OF top] show ?thesis
    unfolding F_def G_def ok_def by simp
qed

lemma entered_append: "entered (xs @ ys) = entered xs @ entered ys"
  by (induction xs rule: entered.induct) simp_all

lemma accept_answers_append: "accept_answers (xs @ ys) = accept_answers xs @ accept_answers ys"
  by (induction xs rule: accept_answers.induct) simp_all

lemma spawned_append: "spawned (xs @ ys) = spawned xs @ spawned ys"
  by (induction xs rule: spawned.induct) simp_all

lemma entered_nonlog: "entered (nonlog es) = entered es"
  by (induction es rule: entered.induct) simp_all

lemma closed_layers_nonlog: "closed_layers (nonlog es) = closed_layers es"
  by (induction es rule: closed_layers.induct) simp_all

lemma set_nonlog: "\<not> is_Log e \<Longrightarrow> e \<in> set (nonlog es) \<longleftrightarrow> e \<in> set es"
  by (auto simp: nonlog_def)

lemma precedes_nonlog:
  "\<not> is_Log a \<Longrightarrow> \<not> is_Log b \<Longrightarrow> precedes a b (nonlog es) = precedes a b es"
  by (induction es) auto

lemma precedes_append:
  "precedes a b (xs @ ys) = (precedes a b xs \<and> (a \<in> set xs \<or> precedes a b ys))"
  by (induction xs) auto

lemma precedes_absent: "b \<notin> set xs \<Longrightarrow> precedes a b xs"
  by (induction xs) auto

lemma all_logs_nonlog: "nonlog es = [] \<Longrightarrow> accept_answers es = [] \<and> spawned es = []"
proof (induction es)
  case Nil
  show ?case by simp
next
  case (Cons e es)
  then show ?case by (cases e) (simp_all split: if_splits)
qed

lemma nonlog_Close:
  "nonlog (snd (Close w t))
     = map (\<lambda>l. CloseLayer l (close_result w l))
         (filter (present t) [ResolverConn, DnsPacketConn, KcpConn, NoiseChannel, SmuxSession])"
  by (simp add: Close_def split: option.splits)

lemma Start_loop_events:
  "e \<in> set (snd (Start_loop accepts)) \<Longrightarrow> (\<exists>a. e = Accept a) \<or> (\<exists>c. e = Go c)"
proof (induction accepts)
  case Nil
  then show ?case by simp
next
  case (Cons a as)
  then show ?case
    by (cases a; cases "Start_loop as") (auto simp: Start_accept_def)
qed

text \<open>
  \<^verbatim>\<open>Start\<close> around the bring-up: it ends before the listener is open, or at the selection of
  the endpoints, or it runs the bring-up on a new tunnel and, unless it stays blocked,
  calls \<^verbatim>\<open>Close\<close> on the tunnel and closes the listener.
\<close>

lemma Start_cases:
  assumes "Start D w ob bind accepts = (x, ob', es)"
  shows "es = [] \<or> (\<exists>ln. es = [ListenerClose ln])
       \<or> (\<exists>r ts t esb ln. Start_bring_up D w
               \<lparr>Resolver = r, TunnelServer = ts, addr = None, resolverConn = None,
                dnsPacketConn = None, kcpConn = None, noiseChannel = None, smuxSession = None\<rparr>
               ts accepts = (x, t, esb)
            \<and> tunnels ob' = [t]
            \<and> es = esb @ (case x of Blocked \<Rightarrow> []
                          | _ \<Rightarrow> CallClose # snd (Close w t) @ [ListenerClose ln]))"
  using assms
  by (auto simp: Start_def Start_listening_def NewTunnel_def
      split: sum.splits list.splits prod.splits exit.splits)

text \<open>When \<^verbatim>\<open>Start\<close> is blocked, its trace ends with the events of the accept loop.\<close>

lemma try_stage_blocked:
  assumes "try_stage s msg r rest = (Blocked, t, es)" and "fst r \<noteq> Blocked"
    and "nonlog (snd (snd r)) = []"
  shows "\<exists>pre es'. rest (fst (snd r)) = (Blocked, t, es') \<and> es = pre @ es'
            \<and> accept_answers pre = [] \<and> spawned pre = []"
proof -
  obtain x0 t0 es0 where r: "r = (x0, t0, es0)" by (cases r) auto
  from assms(3) r have z: "accept_answers es0 = [] \<and> spawned es0 = []"
    using all_logs_nonlog [of es0] by simp
  from assms(1,2) r obtain es' where a: "rest t0 = (Blocked, t, es')"
    and b: "es = (Enter s # es0 @ [Leave s (Return None)]) @ es'"
    by (auto simp: try_stage_def split: prod.splits exit.splits option.splits)
  have "accept_answers (Enter s # es0 @ [Leave s (Return None)]) = []
      \<and> spawned (Enter s # es0 @ [Leave s (Return None)]) = []"
    using z by (simp add: accept_answers_append spawned_append)
  with a b r show ?thesis by (metis fst_conv snd_conv)
qed

lemma Start_bring_up_blocked:
  assumes "Start_bring_up D w tunnel ts accepts = (Blocked, t, es)"
  shows "\<exists>pre. es = pre @ snd (Start_loop accepts) \<and> accept_answers pre = [] \<and> spawned pre = []"
proof -
  define Q :: "event list \<Rightarrow> bool" where
    "Q es' \<longleftrightarrow> (\<exists>pre. es' = pre @ snd (Start_loop accepts)
                    \<and> accept_answers pre = [] \<and> spawned pre = [])" for es'
  define k5 :: "Tunnel \<Rightarrow> error call" where
    "k5 = (\<lambda>t5. case Start_loop accepts of (x, es) \<Rightarrow> (x, t5, es))"
  define k4 where "k4 = (\<lambda>t4. try_stage StageSmuxSession ''failed to initiate smux session: %w'' (InitiateSmuxSession w t4) k5)"
  define k3 where "k3 = (\<lambda>t3. try_stage StageNoiseChannel ''failed to initiate Noise channel: %w'' (InitiateNoiseChannel w t3) k4)"
  define k2 where "k2 = (\<lambda>t2. emit [Log (LogEffectiveMTU (MTU ts))]
      (try_stage StageKCPConn ''failed to initiate KCP connection: %w'' (InitiateKCPConn D w t2 (MTU ts)) k3))"
  define k1 where "k1 = (\<lambda>t1. try_stage StageDNSPacketConn ''failed to initiate DNS packet connection: %w''
      (InitiateDNSPacketConn t1 (Addr ts)) k2)"
  have top: "try_stage StageResolver ''failed to initiate connection to resolver: %w'' (InitiateResolverConnection w tunnel) k1 = (Blocked, t, es)"
    using assms by (simp add: Start_bring_up_def k1_def k2_def k3_def k4_def k5_def)
  have lift: "Q es'" if "es' = pre @ es''" "accept_answers pre = [] \<and> spawned pre = []" "Q es''"
    for es' pre es''
    using that unfolding Q_def
    by (metis append.assoc accept_answers_append spawned_append append_Nil)
  have step: "Q es'"
    if "try_stage s msg r rest = (Blocked, t', es')" and "nonlog (snd (snd r)) = [] \<and> fst r \<noteq> Blocked"
      and "\<And>t0 es''. rest t0 = (Blocked, t', es'') \<Longrightarrow> Q es''"
    for s msg r rest t' es'
    using try_stage_blocked [OF that(1)] that(2,3) lift by blast
  have l1: "nonlog (snd (snd (InitiateResolverConnection w t'))) = []
            \<and> fst (InitiateResolverConnection w t') \<noteq> Blocked" for t'
    using stage_logs(1) [of w t'] by (metis prod.collapse)
  have l2: "nonlog (snd (snd (InitiateDNSPacketConn t' n))) = []
            \<and> fst (InitiateDNSPacketConn t' n) \<noteq> Blocked" for t' n
    using stage_logs(2) [of t' n] by (metis prod.collapse)
  have l3: "nonlog (snd (snd (InitiateKCPConn D w t' m))) = []
            \<and> fst (InitiateKCPConn D w t' m) \<noteq> Blocked" for t' m
    using stage_logs(3) [of D w t' m] by (metis prod.collapse)
  have l4: "nonlog (snd (snd (InitiateNoiseChannel w t'))) = []
            \<and> fst (InitiateNoiseChannel w t') \<noteq> Blocked" for t'
    using stage_logs(4) [of w t'] by (metis prod.collapse)
  have l5: "nonlog (snd (snd (InitiateSmuxSession w t'))) = []
            \<and> fst (InitiateSmuxSession w t') \<noteq> Blocked" for t'
    using stage_logs(5) [of w t'] by (metis prod.collapse)
  have c5: "Q es'" if "k5 t5 = (Blocked, t', es')" for t5 t' es'
    using that by (cases "Start_loop accepts") (auto simp: k5_def Q_def)
  have c4: "Q es'" if "k4 t4 = (Blocked, t', es')" for t4 t' es'
    using step [OF that [unfolded k4_def] l5] c5 by blast
  have c3: "Q es'" if "k3 t3 = (Blocked, t', es')" for t3 t' es'
    using step [OF that [unfolded k3_def] l4] c4 by blast
  have c2: "Q es'" if "k2 t2 = (Blocked, t', es')" for t2 t' es'
  proof -
    obtain y where y: "try_stage StageKCPConn ''failed to initiate KCP connection: %w'' (InitiateKCPConn D w t2 (MTU ts)) k3 = y"
      by simp
    obtain x0 t0 es0 where y0: "y = (x0, t0, es0)" by (cases y) auto
    from that y y0 have e: "x0 = Blocked" "t0 = t'" "es' = [Log (LogEffectiveMTU (MTU ts))] @ es0"
      by (simp_all add: k2_def emit_def)
    have "Q es0" using step [OF y [unfolded y0 e(1,2)] l3] c3 by blast
    then show ?thesis using lift [OF e(3)] by simp
  qed
  have c1: "Q es'" if "k1 t1 = (Blocked, t', es')" for t1 t' es'
    using step [OF that [unfolded k1_def] l2] c2 by blast
  have "Q es" using step [OF top l1] c1 by blast
  then show ?thesis by (simp add: Q_def)
qed

lemma try_stage_blocked_ok:
  assumes "try_stage s msg r rest = (Blocked, t, es)" and "fst r \<noteq> Blocked"
  shows "fst r = Return None \<and> (\<exists>es'. rest (fst (snd r)) = (Blocked, t, es'))"
  using assms
  by (cases r) (auto simp: try_stage_def split: prod.splits exit.splits option.splits)

lemma InitiateSmuxSession_ok:
  assumes "InitiateSmuxSession w t = (Return None, t', es)"
  shows "(\<exists>k. kcpConn t' = Some k) \<and> (\<exists>sess. smuxSession t' = Some sess)"
  using assms
  by (auto simp: InitiateSmuxSession_def Let_def split: sum.splits option.splits)

text \<open>
  The tunnel that \<^verbatim>\<open>Start\<close> serves connections with has its KCP connection and its smux
  session: these are the handles \<^verbatim>\<open>Handle\<close> uses.
\<close>

lemma Start_bring_up_blocked_tunnel:
  assumes "Start_bring_up D w tunnel ts accepts = (Blocked, t, es)"
  shows "(\<exists>k. kcpConn t = Some k) \<and> (\<exists>sess. smuxSession t = Some sess)"
proof -
  define Q :: "Tunnel \<Rightarrow> bool" where
    "Q t' \<longleftrightarrow> (\<exists>k. kcpConn t' = Some k) \<and> (\<exists>sess. smuxSession t' = Some sess)" for t'
  define k5 :: "Tunnel \<Rightarrow> error call" where
    "k5 = (\<lambda>t5. case Start_loop accepts of (x, es) \<Rightarrow> (x, t5, es))"
  define k4 where "k4 = (\<lambda>t4. try_stage StageSmuxSession ''failed to initiate smux session: %w'' (InitiateSmuxSession w t4) k5)"
  define k3 where "k3 = (\<lambda>t3. try_stage StageNoiseChannel ''failed to initiate Noise channel: %w'' (InitiateNoiseChannel w t3) k4)"
  define k2 where "k2 = (\<lambda>t2. emit [Log (LogEffectiveMTU (MTU ts))]
      (try_stage StageKCPConn ''failed to initiate KCP connection: %w'' (InitiateKCPConn D w t2 (MTU ts)) k3))"
  define k1 where "k1 = (\<lambda>t1. try_stage StageDNSPacketConn ''failed to initiate DNS packet connection: %w''
      (InitiateDNSPacketConn t1 (Addr ts)) k2)"
  have top: "try_stage StageResolver ''failed to initiate connection to resolver: %w'' (InitiateResolverConnection w tunnel) k1 = (Blocked, t, es)"
    using assms by (simp add: Start_bring_up_def k1_def k2_def k3_def k4_def k5_def)
  have step: "Q t'"
    if "try_stage s msg r rest = (Blocked, t', es')" and "nonlog (snd (snd r)) = [] \<and> fst r \<noteq> Blocked"
      and "\<And>t0 es''. rest t0 = (Blocked, t', es'') \<Longrightarrow> Q t'"
    for s msg r rest t' es'
    using try_stage_blocked_ok [OF that(1)] that(2,3) by blast
  have l1: "nonlog (snd (snd (InitiateResolverConnection w t'))) = []
            \<and> fst (InitiateResolverConnection w t') \<noteq> Blocked" for t'
    using stage_logs(1) [of w t'] by (metis prod.collapse)
  have l2: "nonlog (snd (snd (InitiateDNSPacketConn t' n))) = []
            \<and> fst (InitiateDNSPacketConn t' n) \<noteq> Blocked" for t' n
    using stage_logs(2) [of t' n] by (metis prod.collapse)
  have l3: "nonlog (snd (snd (InitiateKCPConn D w t' m))) = []
            \<and> fst (InitiateKCPConn D w t' m) \<noteq> Blocked" for t' m
    using stage_logs(3) [of D w t' m] by (metis prod.collapse)
  have l4: "nonlog (snd (snd (InitiateNoiseChannel w t'))) = []
            \<and> fst (InitiateNoiseChannel w t') \<noteq> Blocked" for t'
    using stage_logs(4) [of w t'] by (metis prod.collapse)
  have l5: "nonlog (snd (snd (InitiateSmuxSession w t'))) = []
            \<and> fst (InitiateSmuxSession w t') \<noteq> Blocked" for t'
    using stage_logs(5) [of w t'] by (metis prod.collapse)
  have c4: "Q t'" if "k4 t4 = (Blocked, t', es')" for t4 t' es'
  proof -
    let ?r = "InitiateSmuxSession w t4"
    from try_stage_blocked_ok [OF that [unfolded k4_def]] l5
    obtain es'' where a: "fst ?r = Return None" and b: "k5 (fst (snd ?r)) = (Blocked, t', es'')"
      by blast
    from b have "t' = fst (snd ?r)"
      by (cases "Start_loop accepts") (simp add: k5_def)
    with a have "?r = (Return None, t', snd (snd ?r))"
      by (metis prod.collapse)
    from InitiateSmuxSession_ok [OF this] show ?thesis by (simp add: Q_def)
  qed
  have c3: "Q t'" if "k3 t3 = (Blocked, t', es')" for t3 t' es'
    using step [OF that [unfolded k3_def] l4] c4 by blast
  have c2: "Q t'" if "k2 t2 = (Blocked, t', es')" for t2 t' es'
  proof -
    obtain y where y: "try_stage StageKCPConn ''failed to initiate KCP connection: %w'' (InitiateKCPConn D w t2 (MTU ts)) k3 = y"
      by simp
    obtain x0 t0 es0 where y0: "y = (x0, t0, es0)" by (cases y) auto
    from that y y0 have e: "x0 = Blocked" "t0 = t'"
      by (simp_all add: k2_def emit_def)
    show ?thesis using step [OF y [unfolded y0 e] l3] c3 by blast
  qed
  have c1: "Q t'" if "k1 t1 = (Blocked, t', es')" for t1 t' es'
    using step [OF that [unfolded k1_def] l2] c2 by blast
  have "Q t" using step [OF top l1] c1 by blast
  then show ?thesis by (simp add: Q_def)
qed

lemma Start_blocked_tunnel:
  assumes "Start D w ob bind accepts = (Blocked, ob', es)"
  shows "\<exists>t k sess. tunnels ob' = [t] \<and> kcpConn t = Some k \<and> smuxSession t = Some sess"
proof -
  from assms obtain r ts t esb where
    "Start_bring_up D w
               \<lparr>Resolver = r, TunnelServer = ts, addr = None, resolverConn = None,
                dnsPacketConn = None, kcpConn = None, noiseChannel = None, smuxSession = None\<rparr>
               ts accepts = (Blocked, t, esb)" and "tunnels ob' = [t]"
    by (auto simp: Start_def Start_listening_def NewTunnel_def
      split: sum.splits list.splits prod.splits exit.splits)
  with Start_bring_up_blocked_tunnel show ?thesis by blast
qed

text \<open>Three runs of \<^verbatim>\<open>Start\<close> in the sample worlds, with their traces.\<close>

lemmas sample_run_defs =
  Start_def Start_listening_def Start_bring_up_def try_stage_def emit_def NewTunnel_def
  NewOutbound_def NewDNSPacketConn_def InitiateResolverConnection_def InitiateDNSPacketConn_def
  InitiateKCPConn_def InitiateNoiseChannel_def InitiateSmuxSession_def SetMtu_def
  SetStreamMode_def SetNoDelay_def SetWindowSize_def Close_def Start_accept_def
  ResolverTypeUDP_def sample_world_def sample_decls_def sample_resolver_def sample_server_def
  sample_fresh_session_def sample_outbound_def sample_outbound_2000_def
  sample_world_no_handshake_def

lemma sample_run_rejected_mtu:
  "fst (Start sample_decls sample_world sample_outbound_2000 ''127.0.0.1:7000'' [])
     = Panic (PanicBool False)
   \<and> snd (snd (Start sample_decls sample_world sample_outbound_2000 ''127.0.0.1:7000'' []))
     = [Enter StageResolver, Leave StageResolver (Return None),
        Enter StageDNSPacketConn, Leave StageDNSPacketConn (Return None),
        Log (LogEffectiveMTU 2000),
        Enter StageKCPConn, Log (LogBeginSession 7), Leave StageKCPConn (Panic (PanicBool False)),
        CallClose, CloseLayer ResolverConn None, CloseLayer DnsPacketConn None,
        ListenerClose 1]"
  by (simp add: sample_run_defs)

lemma sample_run_no_handshake:
  "fst (Start sample_decls sample_world_no_handshake sample_outbound ''127.0.0.1:7000'' [])
     = Return (ErrorfW ''failed to initiate Noise channel: %w'' []
                (ErrorfV ''initiating Noise channel: %v'' [] (ErrExternal ''handshake failed'')))
   \<and> snd (snd (Start sample_decls sample_world_no_handshake sample_outbound ''127.0.0.1:7000'' []))
     = [Enter StageResolver, Leave StageResolver (Return None),
        Enter StageDNSPacketConn, Leave StageDNSPacketConn (Return None),
        Log (LogEffectiveMTU 137),
        Enter StageKCPConn, Log (LogBeginSession 7), Leave StageKCPConn (Return None),
        Enter StageNoiseChannel,
        Leave StageNoiseChannel
          (Return (Some (ErrorfV ''initiating Noise channel: %v'' [] (ErrExternal ''handshake failed'')))),
        CallClose, CloseLayer ResolverConn None, CloseLayer DnsPacketConn None,
        Log (LogEndSession 7), CloseLayer KcpConn (Some ErrClosedPipe),
        ListenerClose 1]"
  by (simp add: sample_run_defs)

lemma sample_run_accepts:
  "fst (Start sample_decls sample_world sample_outbound ''127.0.0.1:7000''
          [Inl (ErrExternal ''accept failed''), Inr 9]) = Blocked
   \<and> snd (snd (Start sample_decls sample_world sample_outbound ''127.0.0.1:7000''
          [Inl (ErrExternal ''accept failed''), Inr 9]))
     = [Enter StageResolver, Leave StageResolver (Return None),
        Enter StageDNSPacketConn, Leave StageDNSPacketConn (Return None),
        Log (LogEffectiveMTU 137),
        Enter StageKCPConn, Log (LogBeginSession 7), Leave StageKCPConn (Return None),
        Enter StageNoiseChannel, Log (LogNoiseEstablished 7), Leave StageNoiseChannel (Return None),
        Enter StageSmuxSession, Log (LogSmuxEstablished 7), Leave StageSmuxSession (Return None),
        Accept (Inl (ErrExternal ''accept failed'')), Accept (Inr 9), Go 9]"
  by (simp add: sample_run_defs)

text \<open>The message of a stage identifies it.\<close>

lemma stage_message_inj: "stage_message s = stage_message s' \<Longrightarrow> s = s'"
  by (cases s; cases s') simp_all

text \<open>
  C5, as stated, at a concrete input: the sample transport rejects the unit size 2000 of
  the server. The KCP stage fails, and \<^verbatim>\<open>Start\<close> does not return an error: it panics.
\<close>

theorem Start_rejected_mtu_panics:
  "Leave StageKCPConn (Panic (PanicBool False))
     \<in> set (snd (snd (Start sample_decls sample_world sample_outbound_2000 ''127.0.0.1:7000'' [])))
   \<and> fst (Start sample_decls sample_world sample_outbound_2000 ''127.0.0.1:7000'' [])
       = Panic (PanicBool False)
   \<and> (\<nexists>err. fst (Start sample_decls sample_world sample_outbound_2000 ''127.0.0.1:7000'' [])
          = Return err)"
  using sample_run_rejected_mtu by simp

text \<open>
  C5 (amended): in every run of \<^verbatim>\<open>Start\<close>, the stages are entered in the order resolver
  connection, DNS packet connection, KCP connection, Noise channel, smux session, each at
  most once, and no stage is entered before the stage before it has returned \<^verbatim>\<open>nil\<close>.
  When a stage ends otherwise, no later stage is entered and \<^verbatim>\<open>Close\<close> is still called on
  the tunnel afterwards, closing every layer whose handle is set. If the stage returned
  an error, \<^verbatim>\<open>Start\<close> returns that error wrapped in the message of the stage; if the
  stage panicked (the KCP stage on a rejected unit size), \<^verbatim>\<open>Start\<close> panics with the same
  value and returns no error.
\<close>

theorem Start_bring_up_order:
  assumes "Start D w ob bind accepts = (x, ob', es)"
  shows "prefix (entered es) [StageResolver, StageDNSPacketConn, StageKCPConn, StageNoiseChannel, StageSmuxSession]
     \<and> precedes (Leave StageResolver (Return None)) (Enter StageDNSPacketConn) es
     \<and> precedes (Leave StageDNSPacketConn (Return None)) (Enter StageKCPConn) es
     \<and> precedes (Leave StageKCPConn (Return None)) (Enter StageNoiseChannel) es
     \<and> precedes (Leave StageNoiseChannel (Return None)) (Enter StageSmuxSession) es
     \<and> (\<forall>s r. Leave s r \<in> set es \<and> r \<noteq> Return None \<longrightarrow>
            r \<noteq> Blocked
          \<and> (\<forall>s'. Enter s' \<in> set es \<longrightarrow> stage_index s' \<le> stage_index s)
          \<and> (\<forall>err. r = Return (Some err) \<longrightarrow> x = Return (ErrorfW (stage_message s) [] err))
          \<and> (\<forall>p. r = Panic p \<longrightarrow> x = Panic p)
          \<and> CallClose \<in> set es \<and> precedes (Leave s r) CallClose es
          \<and> (\<exists>t. tunnels ob' = [t] \<and> closed_layers es = filter (present t) [ResolverConn, DnsPacketConn, KcpConn, NoiseChannel, SmuxSession]))"
proof -
  define N where "N = nonlog es"
  define LL where "LL t = filter (present t) [ResolverConn, DnsPacketConn, KcpConn, NoiseChannel, SmuxSession]" for t
  define P where "P l \<longleftrightarrow> prefix (entered l) [StageResolver, StageDNSPacketConn, StageKCPConn, StageNoiseChannel, StageSmuxSession]
     \<and> precedes (Leave StageResolver (Return None)) (Enter StageDNSPacketConn) l
     \<and> precedes (Leave StageDNSPacketConn (Return None)) (Enter StageKCPConn) l
     \<and> precedes (Leave StageKCPConn (Return None)) (Enter StageNoiseChannel) l
     \<and> precedes (Leave StageNoiseChannel (Return None)) (Enter StageSmuxSession) l
     \<and> (\<forall>s r. Leave s r \<in> set l \<and> r \<noteq> Return None \<longrightarrow>
            r \<noteq> Blocked
          \<and> (\<forall>s'. Enter s' \<in> set l \<longrightarrow> stage_index s' \<le> stage_index s)
          \<and> (\<forall>err. r = Return (Some err) \<longrightarrow> x = Return (ErrorfW (stage_message s) [] err))
          \<and> (\<forall>p. r = Panic p \<longrightarrow> x = Panic p)
          \<and> CallClose \<in> set l \<and> precedes (Leave s r) CallClose l
          \<and> (\<exists>t. tunnels ob' = [t] \<and> closed_layers l = LL t))" for l
  have tr: "entered es = entered N" "closed_layers es = closed_layers N"
    "\<And>s. Enter s \<in> set es \<longleftrightarrow> Enter s \<in> set N"
    "\<And>s r. Leave s r \<in> set es \<longleftrightarrow> Leave s r \<in> set N"
    "CallClose \<in> set es \<longleftrightarrow> CallClose \<in> set N"
    "\<And>s r s'. precedes (Leave s r) (Enter s') es = precedes (Leave s r) (Enter s') N"
    "\<And>s r. precedes (Leave s r) CallClose es = precedes (Leave s r) CallClose N"
    by (simp_all add: N_def entered_nonlog closed_layers_nonlog set_nonlog precedes_nonlog)
  have "P N"
    using Start_cases [OF assms]
  proof (elim disjE exE conjE)
    assume "es = []"
    then show ?thesis by (simp add: P_def N_def)
  next
    fix ln assume "es = [ListenerClose ln]"
    then show ?thesis by (simp add: P_def N_def)
  next
    fix r ts t esb ln
    assume b: "Start_bring_up D w
               \<lparr>Resolver = r, TunnelServer = ts, addr = None, resolverConn = None,
                dnsPacketConn = None, kcpConn = None, noiseChannel = None, smuxSession = None\<rparr>
               ts accepts = (x, t, esb)"
      and t: "tunnels ob' = [t]"
      and e: "es = esb @ (case x of Blocked \<Rightarrow> []
                          | _ \<Rightarrow> CallClose # snd (Close w t) @ [ListenerClose ln])"
    define CL where "CL = nonlog (snd (Close w t))"
    have cl: "closed_layers CL = LL t" "entered CL = []"
      "\<And>s. Enter s \<notin> set CL" "\<And>s r. Leave s r \<notin> set CL"
      unfolding CL_def LL_def
      by (auto simp: closed_layers_Close closed_layers_nonlog entered_nonlog nonlog_Close
          split: if_splits)
    have fail: "N = nonlog esb @ CallClose # CL @ [ListenerClose ln]" if "x \<noteq> Blocked"
      using that e by (cases x) (simp_all add: N_def CL_def)
    have loop: "entered (snd (Start_loop accepts)) = []"
      "closed_layers (snd (Start_loop accepts)) = []"
      "\<And>s. Enter s \<notin> set (snd (Start_loop accepts))"
      "\<And>s r. Leave s r \<notin> set (snd (Start_loop accepts))"
      "CallClose \<notin> set (snd (Start_loop accepts))"
      using Start_loop_shape [of accepts] Start_loop_events [of _ accepts] by auto
    from Start_bring_up_cases [OF b] show ?thesis
    proof (elim disjE exE conjE)
      fix r0
      assume r0: "r0 \<noteq> Return None" "r0 \<noteq> Blocked" and x: "x \<noteq> Blocked"
        and n: "nonlog esb = [Enter StageResolver, Leave StageResolver r0]"
        and o: "\<forall>err. r0 = Return (Some err) \<longrightarrow> x = Return (ErrorfW ''failed to initiate connection to resolver: %w'' [] err)"
          "\<forall>p. r0 = Panic p \<longrightarrow> x = Panic p"
      show ?thesis
        unfolding P_def fail [OF x] n using r0 o cl t
        by (auto simp: entered_append closed_layers_append precedes_append precedes_absent)
    next
      fix r0
      assume r0: "r0 \<noteq> Return None" "r0 \<noteq> Blocked" and x: "x \<noteq> Blocked"
        and n: "nonlog esb = [Enter StageResolver, Leave StageResolver (Return None), Enter StageDNSPacketConn, Leave StageDNSPacketConn r0]"
        and o: "\<forall>err. r0 = Return (Some err) \<longrightarrow> x = Return (ErrorfW ''failed to initiate DNS packet connection: %w'' [] err)"
          "\<forall>p. r0 = Panic p \<longrightarrow> x = Panic p"
      show ?thesis
        unfolding P_def fail [OF x] n using r0 o cl t
        by (auto simp: entered_append closed_layers_append precedes_append precedes_absent)
    next
      fix r0
      assume r0: "r0 \<noteq> Return None" "r0 \<noteq> Blocked" and x: "x \<noteq> Blocked"
        and n: "nonlog esb = [Enter StageResolver, Leave StageResolver (Return None), Enter StageDNSPacketConn, Leave StageDNSPacketConn (Return None), Enter StageKCPConn, Leave StageKCPConn r0]"
        and o: "\<forall>err. r0 = Return (Some err) \<longrightarrow> x = Return (ErrorfW ''failed to initiate KCP connection: %w'' [] err)"
          "\<forall>p. r0 = Panic p \<longrightarrow> x = Panic p"
      show ?thesis
        unfolding P_def fail [OF x] n using r0 o cl t
        by (auto simp: entered_append closed_layers_append precedes_append precedes_absent)
    next
      fix r0
      assume r0: "r0 \<noteq> Return None" "r0 \<noteq> Blocked" and x: "x \<noteq> Blocked"
        and n: "nonlog esb = [Enter StageResolver, Leave StageResolver (Return None), Enter StageDNSPacketConn, Leave StageDNSPacketConn (Return None), Enter StageKCPConn, Leave StageKCPConn (Return None), Enter StageNoiseChannel, Leave StageNoiseChannel r0]"
        and o: "\<forall>err. r0 = Return (Some err) \<longrightarrow> x = Return (ErrorfW ''failed to initiate Noise channel: %w'' [] err)"
          "\<forall>p. r0 = Panic p \<longrightarrow> x = Panic p"
      show ?thesis
        unfolding P_def fail [OF x] n using r0 o cl t
        by (auto simp: entered_append closed_layers_append precedes_append precedes_absent)
    next
      fix r0
      assume r0: "r0 \<noteq> Return None" "r0 \<noteq> Blocked" and x: "x \<noteq> Blocked"
        and n: "nonlog esb = [Enter StageResolver, Leave StageResolver (Return None), Enter StageDNSPacketConn, Leave StageDNSPacketConn (Return None), Enter StageKCPConn, Leave StageKCPConn (Return None), Enter StageNoiseChannel, Leave StageNoiseChannel (Return None), Enter StageSmuxSession, Leave StageSmuxSession r0]"
        and o: "\<forall>err. r0 = Return (Some err) \<longrightarrow> x = Return (ErrorfW ''failed to initiate smux session: %w'' [] err)"
          "\<forall>p. r0 = Panic p \<longrightarrow> x = Panic p"
      show ?thesis
        unfolding P_def fail [OF x] n using r0 o cl t
        by (auto simp: entered_append closed_layers_append precedes_append precedes_absent)
    next
      assume "x = Blocked" and n: "nonlog esb = [Enter StageResolver, Leave StageResolver (Return None), Enter StageDNSPacketConn, Leave StageDNSPacketConn (Return None), Enter StageKCPConn, Leave StageKCPConn (Return None), Enter StageNoiseChannel, Leave StageNoiseChannel (Return None), Enter StageSmuxSession, Leave StageSmuxSession (Return None)] @ snd (Start_loop accepts)"
      then have "N = [Enter StageResolver, Leave StageResolver (Return None), Enter StageDNSPacketConn, Leave StageDNSPacketConn (Return None), Enter StageKCPConn, Leave StageKCPConn (Return None), Enter StageNoiseChannel, Leave StageNoiseChannel (Return None), Enter StageSmuxSession, Leave StageSmuxSession (Return None)] @ snd (Start_loop accepts)"
        using e by (simp add: N_def)
      then show ?thesis
        unfolding P_def using loop
        by (auto simp: entered_append closed_layers_append precedes_append precedes_absent)
    qed
  qed
  then show ?thesis
    unfolding P_def tr LL_def .
qed


text \<open>An instance: the Noise handshake fails in the fourth stage.\<close>

theorem Start_bring_up_order_witness:
  "fst (Start sample_decls sample_world_no_handshake sample_outbound ''127.0.0.1:7000'' [])
     = Return (ErrorfW (stage_message StageNoiseChannel) []
                (ErrorfV ''initiating Noise channel: %v'' [] (ErrExternal ''handshake failed'')))
   \<and> entered (snd (snd (Start sample_decls sample_world_no_handshake sample_outbound
                          ''127.0.0.1:7000'' [])))
       = [StageResolver, StageDNSPacketConn, StageKCPConn, StageNoiseChannel]
   \<and> precedes (Leave StageKCPConn (Return None)) (Enter StageNoiseChannel)
        (snd (snd (Start sample_decls sample_world_no_handshake sample_outbound ''127.0.0.1:7000'' [])))
   \<and> CallClose \<in> set (snd (snd (Start sample_decls sample_world_no_handshake sample_outbound
                                    ''127.0.0.1:7000'' [])))
   \<and> closed_layers (snd (snd (Start sample_decls sample_world_no_handshake sample_outbound
                                  ''127.0.0.1:7000'' [])))
       = [ResolverConn, DnsPacketConn, KcpConn]"
proof -
  let ?run = "Start sample_decls sample_world_no_handshake sample_outbound ''127.0.0.1:7000'' []"
  let ?e = "ErrorfV ''initiating Noise channel: %v'' [] (ErrExternal ''handshake failed'')"
  have c: "?run = (fst ?run, fst (snd ?run), snd (snd ?run))"
    by simp
  note th = Start_bring_up_order [OF c]
  have l: "Leave StageNoiseChannel (Return (Some ?e)) \<in> set (snd (snd ?run))"
    using sample_run_no_handshake by simp
  from th l have a: "fst ?run = Return (ErrorfW (stage_message StageNoiseChannel) [] ?e)"
    by blast
  from th l have b: "CallClose \<in> set (snd (snd ?run))"
    by blast
  from th have p: "precedes (Leave StageKCPConn (Return None)) (Enter StageNoiseChannel)
        (snd (snd ?run))"
    by blast
  have d: "entered (snd (snd ?run)) = [StageResolver, StageDNSPacketConn, StageKCPConn, StageNoiseChannel]"
    "closed_layers (snd (snd ?run)) = [ResolverConn, DnsPacketConn, KcpConn]"
    using sample_run_no_handshake by simp_all
  from a b p d show ?thesis by simp
qed

section \<open>The accept loop\<close>

text \<open>
  C6, as stated, at a concrete input: in the sample world the first \<^verbatim>\<open>Accept\<close> fails and
  the second one succeeds. The failed \<^verbatim>\<open>Accept\<close> is followed at once by the next \<^verbatim>\<open>Accept\<close>:
  nothing is logged from the failure on.
\<close>

theorem Start_accept_error_not_logged:
  "dropWhile (\<lambda>e. e \<noteq> Accept (Inl (ErrExternal ''accept failed'')))
     (snd (snd (Start sample_decls sample_world sample_outbound ''127.0.0.1:7000''
                  [Inl (ErrExternal ''accept failed''), Inr 9])))
     = [Accept (Inl (ErrExternal ''accept failed'')), Accept (Inr 9), Go 9]
   \<and> filter is_Log
       (dropWhile (\<lambda>e. e \<noteq> Accept (Inl (ErrExternal ''accept failed'')))
          (snd (snd (Start sample_decls sample_world sample_outbound ''127.0.0.1:7000''
                       [Inl (ErrExternal ''accept failed''), Inr 9])))) = []"
  using sample_run_accepts by simp

text \<open>
  C6 (amended): once the bring-up has completed, \<^verbatim>\<open>Start\<close> does not return, whatever the
  calls of \<^verbatim>\<open>Accept\<close> answer: it neither closes the tunnel nor the listener. Its trace
  ends with the accept loop, in which every answer of \<^verbatim>\<open>Accept\<close> is consumed in turn, an
  error is skipped without a log line, and every accepted connection is handed to a
  goroutine of its own, in the order of acceptance.
\<close>

theorem Start_accept_loop:
  assumes "Start D w ob bind accepts = (x, ob', es)"
    and "Leave StageSmuxSession (Return None) \<in> set es"
  shows "x = Blocked
       \<and> CallClose \<notin> set es \<and> (\<forall>ln. ListenerClose ln \<notin> set es)
       \<and> (\<exists>pre lp. es = pre @ lp
              \<and> accept_answers pre = [] \<and> spawned pre = []
              \<and> accept_answers lp = accepts
              \<and> spawned lp = map projr (filter (\<lambda>a. \<not> isl a) accepts)
              \<and> filter is_Log lp = [])"
proof -
  define N where "N = nonlog es"
  have m: "Leave StageSmuxSession (Return None) \<in> set N"
    using assms(2) by (simp add: N_def set_nonlog)
  have tr: "CallClose \<in> set es \<longleftrightarrow> CallClose \<in> set N"
    "\<And>ln. ListenerClose ln \<in> set es \<longleftrightarrow> ListenerClose ln \<in> set N"
    by (simp_all add: N_def set_nonlog)
  from Start_cases [OF assms(1)] show ?thesis
  proof (elim disjE exE conjE)
    assume "es = []"
    with assms(2) show ?thesis by simp
  next
    fix ln assume "es = [ListenerClose ln]"
    with assms(2) show ?thesis by simp
  next
    fix r ts t esb ln
    assume b: "Start_bring_up D w
               \<lparr>Resolver = r, TunnelServer = ts, addr = None, resolverConn = None,
                dnsPacketConn = None, kcpConn = None, noiseChannel = None, smuxSession = None\<rparr>
               ts accepts = (x, t, esb)"
      and e: "es = esb @ (case x of Blocked \<Rightarrow> []
                          | _ \<Rightarrow> CallClose # snd (Close w t) @ [ListenerClose ln])"
    define CL where "CL = nonlog (snd (Close w t))"
    have cl: "\<And>s r. Leave s r \<notin> set CL"
      unfolding CL_def by (auto simp: nonlog_Close split: if_splits)
    have fail: "N = nonlog esb @ CallClose # CL @ [ListenerClose ln]" if "x \<noteq> Blocked"
      using that e by (cases x) (simp_all add: N_def CL_def)
    from Start_bring_up_cases [OF b] show ?thesis
    proof (elim disjE exE conjE)
      fix r0
      assume r0: "r0 \<noteq> Return None" and x: "x \<noteq> Blocked"
        and n: "nonlog esb = [Enter StageResolver, Leave StageResolver r0]"
      have "Leave StageSmuxSession (Return None) \<notin> set N"
        unfolding fail [OF x] n using r0 cl by auto
      with m show ?thesis by simp
    next
      fix r0
      assume r0: "r0 \<noteq> Return None" and x: "x \<noteq> Blocked"
        and n: "nonlog esb = [Enter StageResolver, Leave StageResolver (Return None), Enter StageDNSPacketConn, Leave StageDNSPacketConn r0]"
      have "Leave StageSmuxSession (Return None) \<notin> set N"
        unfolding fail [OF x] n using r0 cl by auto
      with m show ?thesis by simp
    next
      fix r0
      assume r0: "r0 \<noteq> Return None" and x: "x \<noteq> Blocked"
        and n: "nonlog esb = [Enter StageResolver, Leave StageResolver (Return None), Enter StageDNSPacketConn, Leave StageDNSPacketConn (Return None), Enter StageKCPConn, Leave StageKCPConn r0]"
      have "Leave StageSmuxSession (Return None) \<notin> set N"
        unfolding fail [OF x] n using r0 cl by auto
      with m show ?thesis by simp
    next
      fix r0
      assume r0: "r0 \<noteq> Return None" and x: "x \<noteq> Blocked"
        and n: "nonlog esb = [Enter StageResolver, Leave StageResolver (Return None), Enter StageDNSPacketConn, Leave StageDNSPacketConn (Return None), Enter StageKCPConn, Leave StageKCPConn (Return None), Enter StageNoiseChannel, Leave StageNoiseChannel r0]"
      have "Leave StageSmuxSession (Return None) \<notin> set N"
        unfolding fail [OF x] n using r0 cl by auto
      with m show ?thesis by simp
    next
      fix r0
      assume r0: "r0 \<noteq> Return None" and x: "x \<noteq> Blocked"
        and n: "nonlog esb = [Enter StageResolver, Leave StageResolver (Return None), Enter StageDNSPacketConn, Leave StageDNSPacketConn (Return None), Enter StageKCPConn, Leave StageKCPConn (Return None), Enter StageNoiseChannel, Leave StageNoiseChannel (Return None), Enter StageSmuxSession, Leave StageSmuxSession r0]"
      have "Leave StageSmuxSession (Return None) \<notin> set N"
        unfolding fail [OF x] n using r0 cl by auto
      with m show ?thesis by simp
    next
      assume x: "x = Blocked" and n: "nonlog esb = [Enter StageResolver, Leave StageResolver (Return None), Enter StageDNSPacketConn, Leave StageDNSPacketConn (Return None), Enter StageKCPConn, Leave StageKCPConn (Return None), Enter StageNoiseChannel, Leave StageNoiseChannel (Return None), Enter StageSmuxSession, Leave StageSmuxSession (Return None)] @ snd (Start_loop accepts)"
      from x e have es: "es = esb" by simp
      from n es have "N = [Enter StageResolver, Leave StageResolver (Return None), Enter StageDNSPacketConn, Leave StageDNSPacketConn (Return None), Enter StageKCPConn, Leave StageKCPConn (Return None), Enter StageNoiseChannel, Leave StageNoiseChannel (Return None), Enter StageSmuxSession, Leave StageSmuxSession (Return None)] @ snd (Start_loop accepts)"
        by (simp add: N_def)
      then have no: "CallClose \<notin> set N" "\<And>ln. ListenerClose ln \<notin> set N"
        using Start_loop_events [of _ accepts] by auto
      from Start_bring_up_blocked [OF b [unfolded x]] es
      obtain pre where pre: "es = pre @ snd (Start_loop accepts)"
        "accept_answers pre = []" "spawned pre = []" by blast
      from pre Start_loop_shape [of accepts]
      have "\<exists>pre lp. es = pre @ lp
              \<and> accept_answers pre = [] \<and> spawned pre = []
              \<and> accept_answers lp = accepts
              \<and> spawned lp = map projr (filter (\<lambda>a. \<not> isl a) accepts)
              \<and> filter is_Log lp = []"
        by blast
      with x no show ?thesis by (simp add: tr)
    qed
  qed
qed

text \<open>An instance: the first \<^verbatim>\<open>Accept\<close> fails, the second one succeeds.\<close>

theorem Start_accept_loop_witness:
  "Leave StageSmuxSession (Return None)
     \<in> set (snd (snd (Start sample_decls sample_world sample_outbound ''127.0.0.1:7000''
                        [Inl (ErrExternal ''accept failed''), Inr 9])))
   \<and> fst (Start sample_decls sample_world sample_outbound ''127.0.0.1:7000''
            [Inl (ErrExternal ''accept failed''), Inr 9]) = Blocked
   \<and> CallClose \<notin> set (snd (snd (Start sample_decls sample_world sample_outbound ''127.0.0.1:7000''
                                    [Inl (ErrExternal ''accept failed''), Inr 9])))
   \<and> spawned (snd (snd (Start sample_decls sample_world sample_outbound ''127.0.0.1:7000''
                           [Inl (ErrExternal ''accept failed''), Inr 9]))) = [9]"
proof -
  let ?run = "Start sample_decls sample_world sample_outbound ''127.0.0.1:7000''
                [Inl (ErrExternal ''accept failed''), Inr 9]"
  have c: "?run = (fst ?run, fst (snd ?run), snd (snd ?run))"
    by simp
  have l: "Leave StageSmuxSession (Return None) \<in> set (snd (snd ?run))"
    using sample_run_accepts by simp
  note th = Start_accept_loop [OF c l]
  from th have a: "fst ?run = Blocked" and b: "CallClose \<notin> set (snd (snd ?run))"
    by blast+
  from th obtain pre lp where "snd (snd ?run) = pre @ lp" "spawned pre = []"
    "spawned lp = map projr (filter (\<lambda>a. \<not> isl a) [Inl (ErrExternal ''accept failed''), Inr 9])"
    by blast
  then have s: "spawned (snd (snd ?run)) = [9]"
    by (simp add: spawned_append)
  from l a b s show ?thesis by simp
qed

end
